theory Spec2Isabelle
  imports Complex_Main "HOL-Library.Word"
begin

section \<open>Python values used by the analyzer\<close>

text \<open>
  Exceptions are values: the class name and the message that \<^verbatim>\<open>str(e)\<close> yields.
  A computation that may raise returns \<open>py_exception + 'a\<close>, with \<open>Inl\<close> for the raise.
\<close>

datatype py_exception = PyException (exc_class: string) (exc_message: string)

text \<open>
  Samples, durations and seconds are modelled as real numbers: the sources compute them
  in IEEE double precision, and the model is the exact arithmetic that those doubles
  approximate.
\<close>

subsection \<open>Decimal formatting (format specifications \<^verbatim>\<open>02d\<close>, \<^verbatim>\<open>06.3f\<close>, \<^verbatim>\<open>.1f\<close>, \<^verbatim>\<open>.3f\<close>)\<close>

definition digit_char :: "nat \<Rightarrow> char" where
  "digit_char d = ''0123456789'' ! d"

fun show_nat :: "nat \<Rightarrow> string" where
  "show_nat n = (if n < 10 then [digit_char n] else show_nat (n div 10) @ [digit_char (n mod 10)])"

declare show_nat.simps [simp del]

definition zfill :: "nat \<Rightarrow> string \<Rightarrow> string" where
  "zfill w s = replicate (w - length s) (CHR ''0'') @ s"

text \<open>\<^verbatim>\<open>f"{i:02d}"\<close>: the sign counts towards the width, the zeros go after it.\<close>

definition format_02d :: "int \<Rightarrow> string" where
  "format_02d i = (if i < 0 then ''-'' @ zfill 1 (show_nat (nat (- i))) else zfill 2 (show_nat (nat i)))"

text \<open>
  Fixed-point formatting rounds the value to the requested number of decimals, a tie going
  to the even neighbour.
\<close>

definition round_half_even :: "real \<Rightarrow> int" where
  "round_half_even z =
     (let f = \<lfloor>z\<rfloor>; d = z - of_int f
      in if d < 1 / 2 then f else if 1 / 2 < d then f + 1 else if even f then f else f + 1)"

definition fixed_digits :: "nat \<Rightarrow> real \<Rightarrow> string" where
  "fixed_digits p x =
     (let m = nat (round_half_even (x * 10 ^ p))
      in show_nat (m div 10 ^ p) @ (if p = 0 then [] else ''.'' @ zfill p (show_nat (m mod 10 ^ p))))"

text \<open>\<^verbatim>\<open>f"{x:0W.Pf}"\<close> with width \<open>w\<close> (0 when no width is given) and precision \<open>p\<close>.\<close>

definition format_f :: "nat \<Rightarrow> nat \<Rightarrow> real \<Rightarrow> string" where
  "format_f w p x =
     (if x < 0 then ''-'' @ zfill (w - 1) (fixed_digits p (- x)) else zfill w (fixed_digits p x))"

subsection \<open>Decimal parsing (\<^verbatim>\<open>str.split\<close>, \<^verbatim>\<open>int\<close>, \<^verbatim>\<open>float\<close>)\<close>

fun split_on :: "char \<Rightarrow> string \<Rightarrow> string list" where
  "split_on c [] = [[]]"
| "split_on c (x # xs) =
     (if x = c then [] # split_on c xs
      else (case split_on c xs of [] \<Rightarrow> [[x]] | p # ps \<Rightarrow> (x # p) # ps))"

definition digit_val :: "char \<Rightarrow> nat option" where
  "digit_val c = map_of
     [(CHR ''0'', 0), (CHR ''1'', 1), (CHR ''2'', 2), (CHR ''3'', 3), (CHR ''4'', 4),
      (CHR ''5'', 5), (CHR ''6'', 6), (CHR ''7'', 7), (CHR ''8'', 8), (CHR ''9'', 9)] c"

definition is_digit :: "char \<Rightarrow> bool" where
  "is_digit c = (digit_val c \<noteq> None)"

definition digits_value :: "string \<Rightarrow> nat" where
  "digits_value s = foldl (\<lambda>acc c. 10 * acc + the (digit_val c)) 0 s"

definition parse_digits :: "string \<Rightarrow> nat option" where
  "parse_digits s = (if s \<noteq> [] \<and> list_all is_digit s then Some (digits_value s) else None)"

text \<open>
  The literals that \<^verbatim>\<open>int(s)\<close> and \<^verbatim>\<open>float(s)\<close> read back from the formatter: an
  optional sign, decimal digits, and for \<^verbatim>\<open>float\<close> an optional fraction. The other
  spellings Python accepts (surrounding blanks, underscores, exponents, \<^verbatim>\<open>inf\<close>,
  \<^verbatim>\<open>nan\<close>) never come out of the formatter and are rejected here.
\<close>

definition int_literal :: "string \<Rightarrow> int option" where
  "int_literal s =
     (case s of
        [] \<Rightarrow> None
      | c # r \<Rightarrow>
          if c = CHR ''-'' then map_option (\<lambda>n. - int n) (parse_digits r)
          else if c = CHR ''+'' then map_option int (parse_digits r)
          else map_option int (parse_digits s))"

definition unsigned_float :: "string \<Rightarrow> real option" where
  "unsigned_float s =
     (case split_on (CHR ''.'') s of
        [ip] \<Rightarrow> map_option real (parse_digits ip)
      | [ip, fp] \<Rightarrow>
          (case (parse_digits ip, parse_digits fp) of
             (Some a, Some b) \<Rightarrow> Some (real a + real b / 10 ^ length fp)
           | _ \<Rightarrow> None)
      | _ \<Rightarrow> None)"

definition float_literal :: "string \<Rightarrow> real option" where
  "float_literal s =
     (case s of
        [] \<Rightarrow> None
      | c # r \<Rightarrow>
          if c = CHR ''-'' then map_option uminus (unsigned_float r)
          else if c = CHR ''+'' then unsigned_float r
          else unsigned_float s)"

text \<open>\<^verbatim>\<open>repr\<close> of a text without quotes, backslashes or control characters.\<close>

definition py_repr :: "string \<Rightarrow> string" where
  "py_repr s = [CHR 0x27] @ s @ [CHR 0x27]"

definition py_int :: "string \<Rightarrow> py_exception + int" where
  "py_int s =
     (case int_literal s of
        None \<Rightarrow> Inl (PyException ''ValueError'' (''invalid literal for int() with base 10: '' @ py_repr s))
      | Some i \<Rightarrow> Inr i)"

definition py_float :: "string \<Rightarrow> py_exception + real" where
  "py_float s =
     (case float_literal s of
        None \<Rightarrow> Inl (PyException ''ValueError'' (''could not convert string to float: '' @ py_repr s))
      | Some x \<Rightarrow> Inr x)"

subsection \<open>Timestamps\<close>

text \<open>Python's \<^verbatim>\<open>x % m\<close> on floats with a positive modulus: the result lies in \<open>[0, m)\<close>.\<close>

definition py_fmod :: "real \<Rightarrow> real \<Rightarrow> real" where
  "py_fmod x m = x - m * of_int \<lfloor>x / m\<rfloor>"

text \<open>
  \<^verbatim>\<open>VideoAnalyzer._seconds_to_timestamp\<close>, on a finite number of seconds. (On an infinite
  or undefined float the conversion \<^verbatim>\<open>int(seconds // 3600)\<close> raises; the callers that
  can produce one are modelled with that raise, see \<open>nan_to_integer\<close> below.)
\<close>

definition seconds_to_timestamp :: "real \<Rightarrow> string" where
  "seconds_to_timestamp seconds =
     (let hours = \<lfloor>seconds / 3600\<rfloor>;
          minutes = \<lfloor>py_fmod seconds 3600 / 60\<rfloor>;
          secs = py_fmod seconds 60
      in format_02d hours @ '':'' @ format_02d minutes @ '':'' @ format_f 6 3 secs)"

definition index_error :: py_exception where
  "index_error = PyException ''IndexError'' ''list index out of range''"

text \<open>
  \<^verbatim>\<open>VideoAnalyzer._timestamp_to_seconds\<close>: the fields are read and converted one after
  the other, so the first failing step decides which exception is raised.
\<close>

definition timestamp_to_seconds :: "string \<Rightarrow> py_exception + real" where
  "timestamp_to_seconds ts =
     (case split_on (CHR '':'') ts of
        [] \<Rightarrow> Inl index_error
      | p0 # r0 \<Rightarrow>
          (case py_int p0 of
             Inl e \<Rightarrow> Inl e
           | Inr hours \<Rightarrow>
               (case r0 of
                  [] \<Rightarrow> Inl index_error
                | p1 # r1 \<Rightarrow>
                    (case py_int p1 of
                       Inl e \<Rightarrow> Inl e
                     | Inr minutes \<Rightarrow>
                         (case r1 of
                            [] \<Rightarrow> Inl index_error
                          | p2 # _ \<Rightarrow>
                              (case py_float p2 of
                                 Inl e \<Rightarrow> Inl e
                               | Inr seconds \<Rightarrow>
                                   Inr (of_int hours * 3600 + of_int minutes * 60 + seconds)))))))"

section \<open>Issues\<close>

text \<open>An issue is the dictionary the detectors build; the fields are its keys.\<close>

record issue =
  i_type :: string
  i_timestamp :: string
  i_duration :: real
  i_severity :: string
  i_description :: string
  i_suggested_fix :: string

text \<open>
  \<^verbatim>\<open>sorted(issues, key=lambda x: self._timestamp_to_seconds(x['timestamp']))\<close>: the keys
  are computed once, in list order (the first failing key raises), then the list is sorted
  stably by key.
\<close>

fun sort_keys :: "issue list \<Rightarrow> py_exception + real list" where
  "sort_keys [] = Inr []"
| "sort_keys (x # xs) =
     (case timestamp_to_seconds (i_timestamp x) of
        Inl e \<Rightarrow> Inl e
      | Inr k \<Rightarrow> (case sort_keys xs of Inl e \<Rightarrow> Inl e | Inr ks \<Rightarrow> Inr (k # ks)))"

definition sorted_by_timestamp :: "issue list \<Rightarrow> py_exception + issue list" where
  "sorted_by_timestamp issues =
     (case sort_keys issues of
        Inl e \<Rightarrow> Inl e
      | Inr ks \<Rightarrow> Inr (map snd (sort_key fst (zip ks issues))))"

section \<open>Array helpers\<close>

text \<open>\<^verbatim>\<open>np.mean\<close> of a non-empty array. (Of an empty array numpy yields NaN; the callers
  below treat the empty case apart.)\<close>

definition np_mean :: "real list \<Rightarrow> real" where
  "np_mean xs = sum_list xs / real (length xs)"

definition np_any :: "bool list \<Rightarrow> bool" where
  "np_any bs = list_ex (\<lambda>b. b) bs"

fun np_diff :: "int list \<Rightarrow> int list" where
  "np_diff (x # y # zs) = (y - x) # np_diff (y # zs)"
| "np_diff _ = []"

text \<open>\<^verbatim>\<open>np.where(mask)[0]\<close>: the indices at which the mask holds, ascending.\<close>

definition np_where :: "bool list \<Rightarrow> nat list" where
  "np_where bs = filter (\<lambda>i. bs ! i) [0..<length bs]"

text \<open>
  The grouping of consecutive flagged samples, written twice in the source (in
  \<^verbatim>\<open>_detect_clipping\<close> and in \<^verbatim>\<open>_detect_silences\<close>) with the same text:
  \<^verbatim>\<open>diff = np.diff(np.concatenate([[False], flags, [False]]).astype(int))\<close>,
  \<^verbatim>\<open>starts = np.where(diff == 1)[0]\<close>, \<^verbatim>\<open>ends = np.where(diff == -1)[0]\<close>,
  \<^verbatim>\<open>zip(starts, ends)\<close>.
\<close>

definition flagged_spans :: "bool list \<Rightarrow> (nat \<times> nat) list" where
  "flagged_spans flags =
     (let diff = np_diff (map of_bool ([False] @ flags @ [False]));
          starts = np_where (map (\<lambda>d. d = 1) diff);
          ends = np_where (map (\<lambda>d. d = - 1) diff)
      in zip starts ends)"

section \<open>Audio detectors\<close>

text \<open>
  With a sample rate of 0 the numpy divisions \<^verbatim>\<open>start / sample_rate\<close> do not raise but
  yield an infinite or undefined float, on which \<^verbatim>\<open>_seconds_to_timestamp\<close> raises.
\<close>

definition nan_to_integer :: py_exception where
  "nan_to_integer = PyException ''ValueError'' ''cannot convert float NaN to integer''"

definition clipping_issue :: "nat \<Rightarrow> nat \<times> nat \<Rightarrow> issue" where
  "clipping_issue sample_rate = (\<lambda>(start, end).
     let dur = (real end - real start) / real sample_rate;
         ts = real start / real sample_rate
     in \<lparr>i_type = ''clipping'',
         i_timestamp = seconds_to_timestamp ts,
         i_duration = dur,
         i_severity = ''high'',
         i_description = ''Audio clipping detected for '' @ format_f 0 3 dur @ '' seconds'',
         i_suggested_fix = ''Reduce input gain or apply limiting''\<rparr>)"

definition detect_clipping :: "real list \<Rightarrow> nat \<Rightarrow> py_exception + issue list" where
  "detect_clipping audio_data sample_rate =
     (let clip_threshold = 99 / 100;
          clipped_samples = map (\<lambda>x. clip_threshold \<le> \<bar>x\<bar>) audio_data
      in if np_any clipped_samples then
           (let spans = flagged_spans clipped_samples
            in if spans \<noteq> [] \<and> sample_rate = 0 then Inl nan_to_integer
               else Inr (map (clipping_issue sample_rate) spans))
         else Inr [])"

definition audio_db :: "real \<Rightarrow> real" where
  "audio_db x = 20 * log 10 (\<bar>x\<bar> + 1 / 10 ^ 10)"

definition silence_issue :: "nat \<Rightarrow> nat \<times> nat \<Rightarrow> issue" where
  "silence_issue sample_rate = (\<lambda>(start, end).
     let dur = (real end - real start) / real sample_rate;
         ts = real start / real sample_rate
     in \<lparr>i_type = ''silence'',
         i_timestamp = seconds_to_timestamp ts,
         i_duration = dur,
         i_severity = (if dur < 3 then ''low'' else ''medium''),
         i_description = ''Silence detected for '' @ format_f 0 1 dur @ '' seconds'',
         i_suggested_fix = ''Check for intentional silence or audio gaps''\<rparr>)"

definition detect_silences :: "real list \<Rightarrow> nat \<Rightarrow> py_exception + issue list" where
  "detect_silences audio_data sample_rate =
     (let silence_threshold = - 40;
          min_silence_duration = 1;
          silent_samples = map (\<lambda>x. audio_db x < silence_threshold) audio_data
      in if np_any silent_samples then
           (let spans = flagged_spans silent_samples
            in if spans \<noteq> [] \<and> sample_rate = 0 then Inl nan_to_integer
               else Inr (map (silence_issue sample_rate)
                      (filter (\<lambda>(start, end).
                         min_silence_duration \<le> (real end - real start) / real sample_rate) spans)))
         else Inr [])"

text \<open>
  What the analyzer obtains from the libraries and the file system, none of which is code
  of the repository: the loudness meter (\<^verbatim>\<open>pyloudnorm\<close>), the short-time features
  (\<^verbatim>\<open>librosa\<close>), \<^verbatim>\<open>np.percentile\<close>, opening and probing the file.
\<close>

datatype pyfloat = Finite real | PosInf | NegInf | NaN

datatype soundarray = Array1D "real list" | Array2D "real list list"

record audio_clip =
  audio_fps :: nat
  to_soundarray :: "py_exception + soundarray"

text \<open>
  A frame is the flattened luminance array that \<^verbatim>\<open>cv2.cvtColor(frame, cv2.COLOR_RGB2GRAY)\<close>
  returns: unsigned 8-bit pixels. \<open>gray_frame k\<close> is the outcome of \<^verbatim>\<open>get_frame(t)\<close>
  followed by that conversion at \<open>t = k\<close> seconds, either of which may raise. All frames
  of one clip have the same shape.
\<close>

type_synonym frame = "8 word list"

record video_clip =
  clip_duration :: real
  clip_fps :: real
  clip_w :: nat
  clip_h :: nat
  clip_audio :: "audio_clip option"
  gray_frame :: "nat \<Rightarrow> py_exception + frame"

record probe_stream =
  codec_type :: string
  codec_name :: "string option"
  stream_sample_rate :: "string option"

record libs =
  integrated_loudness :: "nat \<Rightarrow> real list \<Rightarrow> py_exception + pyfloat"
  zero_crossing_rate :: "real list \<Rightarrow> nat \<Rightarrow> nat \<Rightarrow> py_exception + real list"
  rms_feature :: "real list \<Rightarrow> nat \<Rightarrow> nat \<Rightarrow> py_exception + real list"
  np_percentile :: "real list \<Rightarrow> real \<Rightarrow> py_exception + real"
  open_clip :: "string \<Rightarrow> py_exception + video_clip"
  getsize :: "string \<Rightarrow> py_exception + nat"
  ffmpeg_probe :: "string \<Rightarrow> py_exception + probe_stream list"

text \<open>
  \<^verbatim>\<open>_analyze_loudness\<close>. The whole body is inside \<^verbatim>\<open>try ... except: pass\<close>: a raise of
  the meter, or the \<^verbatim>\<open>ZeroDivisionError\<close> of \<^verbatim>\<open>len(audio_data) / sample_rate\<close>, leaves
  the list empty. An infinite measurement is skipped; on an undefined one both comparisons
  fail.
\<close>

definition loudness_issue :: "string \<Rightarrow> string \<Rightarrow> string \<Rightarrow> real \<Rightarrow> nat \<Rightarrow> nat \<Rightarrow> issue" where
  "loudness_issue kind what fix loudness n sample_rate =
     \<lparr>i_type = kind,
      i_timestamp = ''00:00:00.000'',
      i_duration = real n / real sample_rate,
      i_severity = ''medium'',
      i_description = what @ format_f 0 1 loudness @ '' LUFS (target: -28 to -12 LUFS)'',
      i_suggested_fix = fix\<rparr>"

definition analyze_loudness :: "libs \<Rightarrow> real list \<Rightarrow> nat \<Rightarrow> issue list" where
  "analyze_loudness L audio_data sample_rate =
     (case integrated_loudness L sample_rate audio_data of
        Inl e \<Rightarrow> []
      | Inr (Finite loudness) \<Rightarrow>
          if loudness < - 28 then
            (if sample_rate = 0 then []
             else [loudness_issue ''low_loudness'' ''Audio too quiet: ''
                     ''Increase audio levels or apply normalization''
                     loudness (length audio_data) sample_rate])
          else if - 12 < loudness then
            (if sample_rate = 0 then []
             else [loudness_issue ''high_loudness'' ''Audio too loud: ''
                     ''Reduce audio levels to prevent distortion''
                     loudness (length audio_data) sample_rate])
          else []
      | Inr _ \<Rightarrow> [])"

text \<open>
  \<^verbatim>\<open>_detect_voice_glitches\<close>, also wholly inside \<^verbatim>\<open>try ... except: pass\<close>. The grouping
  loop keeps the current group and the previous index.
\<close>

fun glitch_groups :: "nat list \<Rightarrow> nat \<Rightarrow> nat list \<Rightarrow> nat list list" where
  "glitch_groups current_group prev [] = [current_group]"
| "glitch_groups current_group prev (i # rest) =
     (if int i - int prev \<le> 2 then glitch_groups (current_group @ [i]) i rest
      else current_group # glitch_groups [i] i rest)"

definition glitch_duration :: "nat \<Rightarrow> nat \<Rightarrow> nat list \<Rightarrow> real" where
  "glitch_duration hop_length sample_rate grp =
     real_of_int ((int (last grp) - int (hd grp) + 1) * int hop_length) / real sample_rate"

definition voice_glitch_issue :: "nat \<Rightarrow> nat \<Rightarrow> nat list \<Rightarrow> issue" where
  "voice_glitch_issue hop_length sample_rate grp =
     (let start_frame = hd grp;
          ts = real (start_frame * hop_length) / real sample_rate;
          dur = glitch_duration hop_length sample_rate grp
      in \<lparr>i_type = ''voice_glitch'',
          i_timestamp = seconds_to_timestamp ts,
          i_duration = dur,
          i_severity = ''medium'',
          i_description = ''Potential voice glitch detected ('' @ format_f 0 3 dur @ '' seconds)'',
          i_suggested_fix = ''Check for audio artifacts or encoding issues''\<rparr>)"

text \<open>
  Arrays of different lengths make the elementwise \<^verbatim>\<open>&\<close> raise, which the handler
  swallows. With a sample rate of 0 every duration is undefined and the comparison
  \<^verbatim>\<open>duration > 0.05\<close> fails, so nothing is reported.
\<close>

definition detect_voice_glitches :: "libs \<Rightarrow> real list \<Rightarrow> nat \<Rightarrow> issue list" where
  "detect_voice_glitches L audio_data sample_rate =
     (let frame_length = nat \<lfloor>(25 / 1000) * real sample_rate\<rfloor>;
          hop_length = nat \<lfloor>(10 / 1000) * real sample_rate\<rfloor>
      in case zero_crossing_rate L audio_data frame_length hop_length of
           Inl e \<Rightarrow> []
         | Inr zcr \<Rightarrow>
        (case rms_feature L audio_data frame_length hop_length of
           Inl e \<Rightarrow> []
         | Inr rms \<Rightarrow>
        (case np_percentile L zcr 95 of
           Inl e \<Rightarrow> []
         | Inr zcr_threshold \<Rightarrow>
        (case np_percentile L rms 20 of
           Inl e \<Rightarrow> []
         | Inr rms_threshold \<Rightarrow>
             if length zcr \<noteq> length rms then []
             else
               (let glitch_frames = map (\<lambda>(z, r). zcr_threshold < z \<and> r < rms_threshold) (zip zcr rms)
                in if np_any glitch_frames then
                     (case np_where glitch_frames of
                        [] \<Rightarrow> []
                      | i0 # rest \<Rightarrow>
                          if sample_rate = 0 then []
                          else map (voice_glitch_issue hop_length sample_rate)
                                 (filter (\<lambda>grp. 5 / 100 < glitch_duration hop_length sample_rate grp)
                                    (glitch_groups [i0] i0 rest)))
                   else [])))))"

section \<open>The analyzer object\<close>

record video_analyzer =
  va_file_path :: string
  va_video_clip :: "video_clip option"
  va_audio_data :: "real list option"
  va_sample_rate :: "nat option"

definition VideoAnalyzer :: "string \<Rightarrow> video_analyzer" where
  "VideoAnalyzer file_path =
     \<lparr>va_file_path = file_path, va_video_clip = None, va_audio_data = None, va_sample_rate = None\<rparr>"

definition audio_analysis_error :: "py_exception \<Rightarrow> issue" where
  "audio_analysis_error e =
     \<lparr>i_type = ''audio_analysis_error'',
      i_timestamp = ''00:00:00.000'',
      i_duration = 0,
      i_severity = ''high'',
      i_description = ''Audio analysis failed: '' @ exc_message e,
      i_suggested_fix = ''Check audio format compatibility''\<rparr>"

text \<open>
  \<^verbatim>\<open>analyze_audio\<close> returns the issue list (or raises, out of the final \<^verbatim>\<open>sorted\<close>)
  and leaves the analyzer with the samples and the sample rate it stored. An exception
  inside the \<^verbatim>\<open>try\<close> block keeps the issues gathered so far and appends one
  \<^verbatim>\<open>audio_analysis_error\<close>. Stereo rows are averaged (\<^verbatim>\<open>np.mean(audio_array, axis=1)\<close>;
  every row holds at least one channel).
\<close>

definition analyze_audio :: "libs \<Rightarrow> video_analyzer \<Rightarrow> (py_exception + issue list) \<times> video_analyzer" where
  "analyze_audio L self =
     (case va_video_clip self of
        None \<Rightarrow> (Inr [], self)
      | Some clip \<Rightarrow>
     (case clip_audio clip of
        None \<Rightarrow> (Inr [], self)
      | Some audio \<Rightarrow>
     (case to_soundarray audio of
        Inl e \<Rightarrow> (sorted_by_timestamp [audio_analysis_error e], self)
      | Inr audio_array \<Rightarrow>
          (let audio_mono = (case audio_array of Array2D rows \<Rightarrow> map np_mean rows | Array1D xs \<Rightarrow> xs);
               sample_rate = audio_fps audio;
               self' = self\<lparr>va_sample_rate := Some sample_rate, va_audio_data := Some audio_mono\<rparr>;
               issues1 = analyze_loudness L audio_mono sample_rate
           in case detect_clipping audio_mono sample_rate of
                Inl e \<Rightarrow> (sorted_by_timestamp (issues1 @ [audio_analysis_error e]), self')
              | Inr clipping \<Rightarrow>
             (case detect_silences audio_mono sample_rate of
                Inl e \<Rightarrow> (sorted_by_timestamp (issues1 @ clipping @ [audio_analysis_error e]), self')
              | Inr silences \<Rightarrow>
                  (sorted_by_timestamp
                     (issues1 @ clipping @ silences @ detect_voice_glitches L audio_mono sample_rate),
                   self'))))))"

section \<open>Video detector\<close>

text \<open>
  The pixels are unsigned bytes, so \<^verbatim>\<open>gray_frame - prev_frame\<close> and \<^verbatim>\<open>** 2\<close> wrap
  modulo 256 before the mean is taken. An empty frame has an undefined mean: it is neither
  black nor similar to anything.
\<close>

definition mean_brightness :: "frame \<Rightarrow> real" where
  "mean_brightness g = np_mean (map (\<lambda>p. real (unat p)) g)"

definition frame_mse :: "frame \<Rightarrow> frame \<Rightarrow> real" where
  "frame_mse g p = np_mean (map (\<lambda>(a, b). real (unat ((a - b) * (a - b)))) (zip g p))"

definition psnr_above_45 :: "frame \<Rightarrow> frame \<Rightarrow> bool" where
  "psnr_above_45 g p =
     (g \<noteq> [] \<and> p \<noteq> [] \<and>
      (let mse = frame_mse g p
       in mse = 0 \<or> 45 < 20 * log 10 (255 / sqrt mse)))"

definition black_frame_issue :: "real \<Rightarrow> real \<Rightarrow> issue" where
  "black_frame_issue t brightness =
     \<lparr>i_type = ''black_frame'',
      i_timestamp = seconds_to_timestamp t,
      i_duration = 1,
      i_severity = ''medium'',
      i_description = ''Black frame detected (brightness: '' @ format_f 0 1 brightness @ ''/255)'',
      i_suggested_fix = ''Check for encoding issues or intentional black frames''\<rparr>"

definition frozen_frame_issue :: "real \<Rightarrow> real \<Rightarrow> issue" where
  "frozen_frame_issue frozen_start frozen_duration =
     \<lparr>i_type = ''frozen_frame'',
      i_timestamp = seconds_to_timestamp frozen_start,
      i_duration = frozen_duration,
      i_severity = (if 5 < frozen_duration then ''high'' else ''medium''),
      i_description = ''Frozen frames for '' @ format_f 0 1 frozen_duration @ '' seconds'',
      i_suggested_fix = ''Check encoding settings or source material''\<rparr>"

definition frame_analysis_error :: "real \<Rightarrow> py_exception \<Rightarrow> issue" where
  "frame_analysis_error t e =
     \<lparr>i_type = ''frame_analysis_error'',
      i_timestamp = seconds_to_timestamp t,
      i_duration = 0,
      i_severity = ''low'',
      i_description = ''Frame analysis error at '' @ seconds_to_timestamp t @ '': '' @ exc_message e,
      i_suggested_fix = ''Frame may be corrupted''\<rparr>"

text \<open>The variables of the sampling loop of \<^verbatim>\<open>analyze_video\<close>.\<close>

record frame_loop =
  fl_issues :: "issue list"
  fl_prev_frame :: "frame option"
  fl_frozen_start :: "real option"
  fl_frozen_duration :: real

definition frame_loop_init :: frame_loop where
  "frame_loop_init =
     \<lparr>fl_issues = [], fl_prev_frame = None, fl_frozen_start = None, fl_frozen_duration = 0\<rparr>"

text \<open>
  One iteration, at \<open>t = k\<close> seconds (the sample interval is one second). A frame that
  fails to decode adds a \<^verbatim>\<open>frame_analysis_error\<close> and leaves the other variables as
  they are.
\<close>

definition frame_step :: "video_clip \<Rightarrow> frame_loop \<Rightarrow> nat \<Rightarrow> frame_loop" where
  "frame_step clip st k =
     (let t = real k; sample_interval = 1
      in case gray_frame clip k of
           Inl frame_error \<Rightarrow> st\<lparr>fl_issues := fl_issues st @ [frame_analysis_error t frame_error]\<rparr>
         | Inr g \<Rightarrow>
             (let st1 = (if g \<noteq> [] \<and> mean_brightness g < 8
                         then st\<lparr>fl_issues := fl_issues st @ [black_frame_issue t (mean_brightness g)]\<rparr>
                         else st);
                  st2 =
                    (case fl_prev_frame st1 of
                       None \<Rightarrow> st1
                     | Some prev \<Rightarrow>
                         if psnr_above_45 g prev then
                           st1\<lparr>fl_frozen_start :=
                                  (case fl_frozen_start st1 of
                                     None \<Rightarrow> Some (t - sample_interval)
                                   | Some s \<Rightarrow> Some s),
                                fl_frozen_duration := fl_frozen_duration st1 + sample_interval\<rparr>
                         else
                           (case fl_frozen_start st1 of
                              None \<Rightarrow> st1
                            | Some s \<Rightarrow>
                                if 2 < fl_frozen_duration st1
                                then st1\<lparr>fl_issues := fl_issues st1 @ [frozen_frame_issue s (fl_frozen_duration st1)]\<rparr>
                                else st1)
                           \<lparr>fl_frozen_start := None, fl_frozen_duration := 0\<rparr>)
              in st2\<lparr>fl_prev_frame := Some g\<rparr>))"

text \<open>The final frozen sequence, handled after the loop.\<close>

definition frame_loop_finish :: "frame_loop \<Rightarrow> issue list" where
  "frame_loop_finish st =
     (case fl_frozen_start st of
        None \<Rightarrow> fl_issues st
      | Some s \<Rightarrow>
          if 2 < fl_frozen_duration st
          then fl_issues st @ [frozen_frame_issue s (fl_frozen_duration st)]
          else fl_issues st)"

text \<open>\<^verbatim>\<open>np.arange(0, duration, 1.0)\<close> has \<open>\<lceil>duration\<rceil>\<close> elements \<open>0, 1, 2, \<dots>\<close>.\<close>

definition sample_count :: "real \<Rightarrow> nat" where
  "sample_count d = nat \<lceil>d\<rceil>"

text \<open>
  \<^verbatim>\<open>analyze_video\<close>. With a numeric duration nothing in the outer \<^verbatim>\<open>try\<close> block raises
  outside the per-frame handler, so its \<^verbatim>\<open>video_analysis_error\<close> handler is not reached.
\<close>

definition analyze_video :: "video_analyzer \<Rightarrow> py_exception + issue list" where
  "analyze_video self =
     (case va_video_clip self of
        None \<Rightarrow> Inr []
      | Some clip \<Rightarrow>
          sorted_by_timestamp
            (frame_loop_finish
               (foldl (frame_step clip) frame_loop_init [0..<sample_count (clip_duration clip)])))"

section \<open>Metrics and summary\<close>

text \<open>
  The values stored in the metadata and metrics dictionaries. A dictionary is the list of
  its entries in insertion order; \<open>dict_set\<close> overwrites an existing key in place.
\<close>

datatype pyval = PStr string | PNum real | PInt int | PBool bool | PNan

type_synonym pydict = "(string \<times> pyval) list"

fun dict_set :: "pydict \<Rightarrow> string \<Rightarrow> pyval \<Rightarrow> pydict" where
  "dict_set [] k v = [(k, v)]"
| "dict_set ((k', v') # d) k v = (if k' = k then (k, v) # d else (k', v') # dict_set d k v)"

text \<open>\<^verbatim>\<open>round(x, 2)\<close>.\<close>

definition round2 :: "real \<Rightarrow> real" where
  "round2 x = of_int (round_half_even (x * 100)) / 100"

definition zero_division :: py_exception where
  "zero_division = PyException ''ZeroDivisionError'' ''division by zero''"

definition lufs_metric :: "libs \<Rightarrow> nat \<Rightarrow> real list \<Rightarrow> pyval" where
  "lufs_metric L sample_rate audio_data =
     (case integrated_loudness L sample_rate audio_data of
        Inl e \<Rightarrow> PStr ''N/A''
      | Inr (Finite loudness) \<Rightarrow> PNum (round2 loudness)
      | Inr NaN \<Rightarrow> PNan
      | Inr _ \<Rightarrow> PStr ''N/A'')"

text \<open>
  The dynamic range. On empty audio \<^verbatim>\<open>np.max\<close> raises and the handler stores
  \<^verbatim>\<open>'N/A'\<close>.
\<close>

definition dynamic_range_metric :: "real list \<Rightarrow> pyval" where
  "dynamic_range_metric audio_data =
     (if audio_data = [] then PStr ''N/A''
      else
        (let rms = sqrt (np_mean (map (\<lambda>x. x ^ 2) audio_data));
             peak = Max (set (map abs audio_data))
         in if 0 < rms then PNum (round2 (20 * log 10 (peak / rms))) else PStr ''N/A''))"

text \<open>
  \<^verbatim>\<open>compute_metrics\<close>. The dictionary display is evaluated entry by entry: the division
  \<^verbatim>\<open>w / h\<close> raises before the file size is read.
\<close>

definition compute_metrics :: "libs \<Rightarrow> video_analyzer \<Rightarrow> py_exception + pydict" where
  "compute_metrics L self =
     (case va_video_clip self of
        None \<Rightarrow> Inr []
      | Some clip \<Rightarrow>
          if clip_h clip = 0 then Inl zero_division
          else
            (case getsize L (va_file_path self) of
               Inl e \<Rightarrow> Inl e
             | Inr file_size \<Rightarrow>
                 (let metrics =
                        [(''duration_formatted'', PStr (seconds_to_timestamp (clip_duration clip))),
                         (''fps'', PNum (clip_fps clip)),
                         (''resolution'', PStr (show_nat (clip_w clip) @ ''x'' @ show_nat (clip_h clip))),
                         (''aspect_ratio'', PNum (round2 (real (clip_w clip) / real (clip_h clip)))),
                         (''file_size_mb'', PNum (round2 (real file_size / (1024 * 1024))))]
                  in case (va_audio_data self, va_sample_rate self) of
                       (Some audio_data, Some sample_rate) \<Rightarrow>
                         if sample_rate = 0 then Inr metrics
                         else Inr (metrics @
                                [(''integrated_lufs'', lufs_metric L sample_rate audio_data),
                                 (''audio_sample_rate'', PInt (int sample_rate)),
                                 (''dynamic_range_db'', dynamic_range_metric audio_data)])
                     | _ \<Rightarrow> Inr metrics)))"

text \<open>
  \<^verbatim>\<open>generate_summary\<close>. The summary points are left out: they join the members of a
  Python \<^verbatim>\<open>set\<close> of texts, whose order the source does not determine. The metrics are
  read for the points only.
\<close>

record summary =
  sm_status :: string
  sm_total_issues :: nat
  sm_high_severity_issues :: nat

definition generate_summary :: "issue list \<Rightarrow> issue list \<Rightarrow> pydict \<Rightarrow> summary" where
  "generate_summary audio_issues video_issues metrics =
     (let total_issues = length audio_issues + length video_issues;
          high_severity = length (filter (\<lambda>i. i_severity i = ''high'') (audio_issues @ video_issues));
          status = (if 0 < high_severity then ''FAIL''
                    else if 5 < total_issues then ''FAIL''
                    else ''PASS'')
      in \<lparr>sm_status = status, sm_total_issues = total_issues, sm_high_severity_issues = high_severity\<rparr>)"

text \<open>
  The variant \<^verbatim>\<open>analyze_video_simple\<close> of \<^verbatim>\<open>test_simple.py\<close> decides the status in line
  (``more nuanced status determination''), from the issue lists it has gathered.
\<close>

definition analyze_video_simple_status :: "issue list \<Rightarrow> issue list \<Rightarrow> string" where
  "analyze_video_simple_status audio_issues video_issues =
     (let total_issues = length audio_issues + length video_issues;
          high_severity = length (filter (\<lambda>i. i_severity i = ''high'') (audio_issues @ video_issues));
          medium_severity = length (filter (\<lambda>i. i_severity i = ''medium'') (audio_issues @ video_issues))
      in if 0 < high_severity then ''FAIL''
         else if 2 < medium_severity \<or> 5 < total_issues then ''WARNING''
         else ''PASS'')"

text \<open>
  The same variant's audio stage: \<^verbatim>\<open>if video.audio: ... else: ...\<close>. The checks of the
  first branch are not modelled; \<open>checked\<close> stands for the issues they append. The
  second branch appends the \<^verbatim>\<open>no_audio\<close> issue to the list, empty until then.
\<close>

definition no_audio_issue :: "real \<Rightarrow> issue" where
  "no_audio_issue video_duration =
     \<lparr>i_type = ''no_audio'',
      i_timestamp = ''00:00:00.000'',
      i_duration = video_duration,
      i_severity = ''medium'',
      i_description = ''No audio track detected in video file'',
      i_suggested_fix = ''Add audio track if audio is expected''\<rparr>"

definition analyze_video_simple_audio :: "video_clip \<Rightarrow> issue list \<Rightarrow> issue list" where
  "analyze_video_simple_audio video checked =
     (case clip_audio video of
        Some audio \<Rightarrow> checked
      | None \<Rightarrow> [no_audio_issue (clip_duration video)])"

section \<open>Metadata\<close>

text \<open>
  The codec entries come from the probe; any exception while probing or while reading a
  stream stores the three defaults.
\<close>

fun probe_streams :: "pydict \<Rightarrow> probe_stream list \<Rightarrow> py_exception + pydict" where
  "probe_streams metadata [] = Inr metadata"
| "probe_streams metadata (stream # streams) =
     (if codec_type stream = ''video'' then
        probe_streams
          (dict_set metadata ''video_codec''
             (PStr (case codec_name stream of None \<Rightarrow> ''unknown'' | Some c \<Rightarrow> c)))
          streams
      else if codec_type stream = ''audio'' then
        (let metadata = dict_set metadata ''audio_codec''
               (PStr (case codec_name stream of None \<Rightarrow> ''unknown'' | Some c \<Rightarrow> c))
         in case (case stream_sample_rate stream of None \<Rightarrow> Inr 0 | Some s \<Rightarrow> py_int s) of
              Inl e \<Rightarrow> Inl e
            | Inr rate \<Rightarrow> probe_streams (dict_set metadata ''sample_rate'' (PInt rate)) streams)
      else probe_streams metadata streams)"

text \<open>
  The source assigns the codec entries to the dictionary as it goes, so after a failure in
  the middle the defaults overwrite what was stored; the entries end up the same as
  storing the defaults into the dictionary reached so far.
\<close>

fun probe_reached :: "pydict \<Rightarrow> probe_stream list \<Rightarrow> pydict" where
  "probe_reached metadata [] = metadata"
| "probe_reached metadata (stream # streams) =
     (if codec_type stream = ''video'' then
        probe_reached
          (dict_set metadata ''video_codec''
             (PStr (case codec_name stream of None \<Rightarrow> ''unknown'' | Some c \<Rightarrow> c)))
          streams
      else if codec_type stream = ''audio'' then
        (let metadata = dict_set metadata ''audio_codec''
               (PStr (case codec_name stream of None \<Rightarrow> ''unknown'' | Some c \<Rightarrow> c))
         in case (case stream_sample_rate stream of None \<Rightarrow> Inr 0 | Some s \<Rightarrow> py_int s) of
              Inl e \<Rightarrow> metadata
            | Inr rate \<Rightarrow> probe_reached (dict_set metadata ''sample_rate'' (PInt rate)) streams)
      else probe_reached metadata streams)"

definition codec_defaults :: "pydict \<Rightarrow> pydict" where
  "codec_defaults metadata =
     dict_set (dict_set (dict_set metadata ''video_codec'' (PStr ''unknown''))
       ''audio_codec'' (PStr ''unknown'')) ''sample_rate'' (PInt 44100)"

definition metadata_failure :: "py_exception \<Rightarrow> py_exception" where
  "metadata_failure e = PyException ''Exception'' (''Failed to extract metadata: '' @ exc_message e)"

definition extract_metadata :: "libs \<Rightarrow> video_analyzer \<Rightarrow> (py_exception + pydict) \<times> video_analyzer" where
  "extract_metadata L self =
     (case open_clip L (va_file_path self) of
        Inl e \<Rightarrow> (Inl (metadata_failure e), self)
      | Inr clip \<Rightarrow>
          (let self' = self\<lparr>va_video_clip := Some clip\<rparr>
           in case getsize L (va_file_path self) of
                Inl e \<Rightarrow> (Inl (metadata_failure e), self')
              | Inr file_size \<Rightarrow>
                  (let metadata =
                         [(''duration'', PNum (clip_duration clip)),
                          (''fps'', PNum (clip_fps clip)),
                          (''width'', PInt (int (clip_w clip))),
                          (''height'', PInt (int (clip_h clip))),
                          (''has_audio'', PBool (clip_audio clip \<noteq> None)),
                          (''file_size'', PInt (int file_size))]
                   in case ffmpeg_probe L (va_file_path self) of
                        Inl e \<Rightarrow> (Inr (codec_defaults metadata), self')
                      | Inr streams \<Rightarrow>
                          (case probe_streams metadata streams of
                             Inl e \<Rightarrow> (Inr (codec_defaults (probe_reached metadata streams)), self')
                           | Inr metadata' \<Rightarrow> (Inr metadata', self')))))"

section \<open>Job status and the orchestrator\<close>

text \<open>
  A status is the dictionary \<^verbatim>\<open>update_job_status\<close> stores. Its \<^verbatim>\<open>'timestamp'\<close> entry, the
  wall-clock time of the write, is left out. The \<^verbatim>\<open>'error'\<close> entry is present only for
  a non-empty error text.
\<close>

record job_status =
  js_job_id :: string
  js_state :: string
  js_progress :: nat
  js_stage :: string
  js_error :: "string option"

record job_result =
  r_job_id :: string
  r_filename :: string
  r_metadata :: pydict
  r_audio_issues :: "issue list"
  r_video_issues :: "issue list"
  r_metrics :: pydict
  r_summary :: summary

text \<open>
  The two stores (the dictionaries \<^verbatim>\<open>job_status\<close> and \<^verbatim>\<open>job_storage\<close> of
  \<^verbatim>\<open>app_simple.py\<close>, the keys \<^verbatim>\<open>job_status:<id>\<close> and \<^verbatim>\<open>job_result:<id>\<close> of the
  Redis store of \<^verbatim>\<open>analysis_tasks.py\<close>) are maps from the job identifier. An entry of
  the Redis store that has expired is an absent key. \<open>status_writes\<close> records every status
  written, in order; it is not part of the program's state and serves to state properties
  of the sequence of writes.
\<close>

record world =
  status_store :: "string \<rightharpoonup> job_status"
  result_store :: "string \<rightharpoonup> job_result"
  status_writes :: "job_status list"

definition update_job_status ::
  "string \<Rightarrow> string \<Rightarrow> nat \<Rightarrow> string \<Rightarrow> string option \<Rightarrow> world \<Rightarrow> world" where
  "update_job_status job_id state progress stage error w =
     (let status = \<lparr>js_job_id = job_id, js_state = state, js_progress = progress, js_stage = stage,
                     js_error = (case error of None \<Rightarrow> None | Some e \<Rightarrow> if e = [] then None else Some e)\<rparr>
      in w\<lparr>status_store := (status_store w)(job_id \<mapsto> status),
            status_writes := status_writes w @ [status]\<rparr>)"

definition update_job_result :: "string \<Rightarrow> job_result \<Rightarrow> world \<Rightarrow> world" where
  "update_job_result job_id result w = w\<lparr>result_store := (result_store w)(job_id \<mapsto> result)\<rparr>"

definition not_found_status :: "string \<Rightarrow> job_status" where
  "not_found_status job_id =
     \<lparr>js_job_id = job_id, js_state = ''NOT_FOUND'', js_progress = 0, js_stage = [], js_error = None\<rparr>"

text \<open>\<^verbatim>\<open>analysis_tasks.get_job_status\<close>.\<close>

definition get_job_status :: "world \<Rightarrow> string \<Rightarrow> job_status" where
  "get_job_status w job_id =
     (case status_store w job_id of
        Some status \<Rightarrow> status
      | None \<Rightarrow> not_found_status job_id)"

text \<open>The route \<^verbatim>\<open>get_job_status\<close> of \<^verbatim>\<open>app_simple.py\<close>: the body and the HTTP status code.\<close>

definition get_job_status_route :: "world \<Rightarrow> string \<Rightarrow> job_status \<times> nat" where
  "get_job_status_route w job_id =
     (case status_store w job_id of
        None \<Rightarrow> (not_found_status job_id, 404)
      | Some status \<Rightarrow> (status, 200))"

text \<open>\<^verbatim>\<open>os.path.basename\<close>: what follows the last slash.\<close>

definition basename :: "string \<Rightarrow> string" where
  "basename path = last (split_on (CHR ''/'') path)"

text \<open>
  The handler of \<^verbatim>\<open>analyze_video_sync\<close>: the state \<^verbatim>\<open>ERROR\<close> is written with progress 0
  and the text of the exception. Removing the uploaded file, on both exits, is not
  modelled.
\<close>

definition sync_failed :: "string \<Rightarrow> py_exception \<Rightarrow> world \<Rightarrow> world" where
  "sync_failed job_id e w =
     update_job_status job_id ''ERROR'' 0 ''Analysis failed'' (Some (exc_message e)) w"

definition analyze_video_sync :: "libs \<Rightarrow> string \<Rightarrow> string \<Rightarrow> world \<Rightarrow> world" where
  "analyze_video_sync L job_id file_path w0 =
     (let w1 = update_job_status job_id ''RUNNING'' 0 ''Starting analysis...'' None w0;
          analyzer = VideoAnalyzer file_path;
          w2 = update_job_status job_id ''RUNNING'' 10 ''Extracting metadata...'' None w1
      in case extract_metadata L analyzer of
           (Inl e, _) \<Rightarrow> sync_failed job_id e w2
         | (Inr metadata, analyzer1) \<Rightarrow>
        (let w3 = update_job_status job_id ''RUNNING'' 30 ''Analyzing audio...'' None w2
         in case analyze_audio L analyzer1 of
              (Inl e, _) \<Rightarrow> sync_failed job_id e w3
            | (Inr audio_issues, analyzer2) \<Rightarrow>
        (let w4 = update_job_status job_id ''RUNNING'' 60 ''Analyzing video frames...'' None w3
         in case analyze_video analyzer2 of
              Inl e \<Rightarrow> sync_failed job_id e w4
            | Inr video_issues \<Rightarrow>
        (let w5 = update_job_status job_id ''RUNNING'' 80 ''Computing metrics...'' None w4
         in case compute_metrics L analyzer2 of
              Inl e \<Rightarrow> sync_failed job_id e w5
            | Inr metrics \<Rightarrow>
        (let w6 = update_job_status job_id ''RUNNING'' 90 ''Compiling report...'' None w5;
             result = \<lparr>r_job_id = job_id, r_filename = basename file_path, r_metadata = metadata,
                        r_audio_issues = audio_issues, r_video_issues = video_issues,
                        r_metrics = metrics,
                        r_summary = generate_summary audio_issues video_issues metrics\<rparr>;
             w7 = update_job_result job_id result w6
         in update_job_status job_id ''DONE'' 100 ''Analysis complete'' None w7)))))"

text \<open>
  The Celery task \<^verbatim>\<open>analysis_tasks.analyze_video\<close>: the same stages and the same writes.
  Its handler appends the traceback text (the parameter \<open>tb\<close>) to the error and raises
  again; on success the task returns the result.
\<close>

definition task_failed :: "string \<Rightarrow> string \<Rightarrow> py_exception \<Rightarrow> world \<Rightarrow> (py_exception + job_result) \<times> world" where
  "task_failed tb job_id e w =
     (Inl e,
      update_job_status job_id ''ERROR'' 0 ''Analysis failed''
        (Some (exc_message e @ [CHR 0x0A] @ tb)) w)"

definition analyze_video_task ::
  "libs \<Rightarrow> string \<Rightarrow> string \<Rightarrow> string \<Rightarrow> world \<Rightarrow> (py_exception + job_result) \<times> world" where
  "analyze_video_task L tb job_id file_path w0 =
     (let w1 = update_job_status job_id ''RUNNING'' 0 ''Starting analysis...'' None w0;
          analyzer = VideoAnalyzer file_path;
          w2 = update_job_status job_id ''RUNNING'' 10 ''Extracting metadata...'' None w1
      in case extract_metadata L analyzer of
           (Inl e, _) \<Rightarrow> task_failed tb job_id e w2
         | (Inr metadata, analyzer1) \<Rightarrow>
        (let w3 = update_job_status job_id ''RUNNING'' 30 ''Analyzing audio...'' None w2
         in case analyze_audio L analyzer1 of
              (Inl e, _) \<Rightarrow> task_failed tb job_id e w3
            | (Inr audio_issues, analyzer2) \<Rightarrow>
        (let w4 = update_job_status job_id ''RUNNING'' 60 ''Analyzing video frames...'' None w3
         in case analyze_video analyzer2 of
              Inl e \<Rightarrow> task_failed tb job_id e w4
            | Inr video_issues \<Rightarrow>
        (let w5 = update_job_status job_id ''RUNNING'' 80 ''Computing metrics...'' None w4
         in case compute_metrics L analyzer2 of
              Inl e \<Rightarrow> task_failed tb job_id e w5
            | Inr metrics \<Rightarrow>
        (let w6 = update_job_status job_id ''RUNNING'' 90 ''Compiling report...'' None w5;
             result = \<lparr>r_job_id = job_id, r_filename = basename file_path, r_metadata = metadata,
                        r_audio_issues = audio_issues, r_video_issues = video_issues,
                        r_metrics = metrics,
                        r_summary = generate_summary audio_issues video_issues metrics\<rparr>;
             w7 = update_job_result job_id result w6
         in (Inr result, update_job_status job_id ''DONE'' 100 ''Analysis complete'' None w7))))))"

section \<open>Properties of sequences, as the specification words them\<close>

text \<open>
  A maximal contiguous run of flagged positions: the half-open span \<open>[s, e)\<close> is not
  empty, every position in it is flagged, and it can be extended on neither side.
\<close>

definition is_maximal_run :: "bool list \<Rightarrow> nat \<Rightarrow> nat \<Rightarrow> bool" where
  "is_maximal_run flags s e \<longleftrightarrow>
     s < e \<and> e \<le> length flags \<and> (\<forall>i\<in>{s..<e}. flags ! i)
     \<and> (s = 0 \<or> \<not> flags ! (s - 1)) \<and> (e = length flags \<or> \<not> flags ! e)"

text \<open>
  Run-length grouping by a left-to-right scan that remembers where the open run began:
  the reference against which the grouping code of the detectors is compared.
\<close>

fun run_spans :: "nat option \<Rightarrow> nat \<Rightarrow> bool list \<Rightarrow> (nat \<times> nat) list" where
  "run_spans None k [] = []"
| "run_spans (Some s) k [] = [(s, k)]"
| "run_spans None k (f # fs) =
     (if f then run_spans (Some k) (Suc k) fs else run_spans None (Suc k) fs)"
| "run_spans (Some s) k (f # fs) =
     (if f then run_spans (Some s) (Suc k) fs else (s, k) # run_spans None (Suc k) fs)"

text \<open>Spans that follow one another with a gap: disjoint, ascending, never adjacent.\<close>

definition spans_apart :: "(nat \<times> nat) list \<Rightarrow> bool" where
  "spans_apart spans = sorted_wrt (\<lambda>(s, e) (s', e'). e < s') spans"

definition is_terminal :: "job_status \<Rightarrow> bool" where
  "is_terminal st = (js_state st = ''DONE'' \<or> js_state st = ''ERROR'')"

text \<open>
  The progress values written over a run never decrease: every write counts, the terminal
  one included.
\<close>

definition progress_nondecreasing :: "job_status list \<Rightarrow> bool" where
  "progress_nondecreasing ws = sorted (map js_progress ws)"

text \<open>
  The weaker property, of the writes that precede the first terminal status only: their
  progress values never decrease. And: no status written from the first terminal one on
  is \<^verbatim>\<open>RUNNING\<close>.
\<close>

definition progress_monotone_before_terminal :: "job_status list \<Rightarrow> bool" where
  "progress_monotone_before_terminal ws =
     sorted (map js_progress (takeWhile (\<lambda>st. \<not> is_terminal st) ws))"

definition no_running_after_terminal :: "job_status list \<Rightarrow> bool" where
  "no_running_after_terminal ws =
     list_all (\<lambda>st. js_state st \<noteq> ''RUNNING'') (dropWhile (\<lambda>st. \<not> is_terminal st) ws)"

text \<open>
  The peak signal-to-noise ratio of two frames above 45 dB, with the mean squared error
  taken over the pixel values as numbers: no difference and no square wraps around.
\<close>

definition exact_mse :: "frame \<Rightarrow> frame \<Rightarrow> real" where
  "exact_mse g p = np_mean (map (\<lambda>(a, b). (real (unat a) - real (unat b)) ^ 2) (zip g p))"

definition exact_psnr_above_45 :: "frame \<Rightarrow> frame \<Rightarrow> bool" where
  "exact_psnr_above_45 g p =
     (g \<noteq> [] \<and> p \<noteq> [] \<and>
      (exact_mse g p = 0 \<or> 45 < 20 * log 10 (255 / sqrt (exact_mse g p))))"

text \<open>The status policy as the specification words it.\<close>

definition canonical_status :: "nat \<Rightarrow> nat \<Rightarrow> nat \<Rightarrow> string" where
  "canonical_status high_severity medium_severity total_issues =
     (if 0 < high_severity then ''FAIL''
      else if 2 < medium_severity \<or> 5 < total_issues then ''WARNING''
      else ''PASS'')"

definition severity_count :: "string \<Rightarrow> issue list \<Rightarrow> nat" where
  "severity_count sev issues = length (filter (\<lambda>i. i_severity i = sev) issues)"

text \<open>Devices of the proofs about the grouping code.\<close>

definition edges :: "bool \<Rightarrow> bool list \<Rightarrow> nat list \<times> nat list" where
  "edges prev fs =
     (let diff = np_diff (map of_bool (prev # fs @ [False]))
      in (np_where (map (\<lambda>d. d = 1) diff), np_where (map (\<lambda>d. d = - 1) diff)))"

definition open_ok :: "bool list \<Rightarrow> nat \<Rightarrow> nat option \<Rightarrow> bool" where
  "open_ok F k opn =
     (case opn of
        None \<Rightarrow> k = 0 \<or> \<not> F ! (k - 1)
      | Some s \<Rightarrow> s < k \<and> (\<forall>i\<in>{s..<k}. F ! i) \<and> (s = 0 \<or> \<not> F ! (s - 1)))"

definition timestamp_parses :: "issue \<Rightarrow> bool" where
  "timestamp_parses i = (case timestamp_to_seconds (i_timestamp i) of Inl _ \<Rightarrow> False | Inr _ \<Rightarrow> True)"

definition timestamp_key :: "issue \<Rightarrow> real" where
  "timestamp_key i = projr (timestamp_to_seconds (i_timestamp i))"

text \<open>
  The frozen-frame variables of the sampling loop after the sample at second \<open>j\<close>, with
  respect to the run that is open there (if any).
\<close>

definition frozen_matches :: "frame_loop \<Rightarrow> nat \<Rightarrow> nat option \<Rightarrow> bool" where
  "frozen_matches st j opn =
     (case opn of
        None \<Rightarrow> fl_frozen_start st = None \<and> fl_frozen_duration st = 0
      | Some s \<Rightarrow> s < j \<and> fl_frozen_start st = Some (real s) \<and> fl_frozen_duration st = real (j - s))"

definition frozen_run_issue :: "nat \<times> nat \<Rightarrow> issue" where
  "frozen_run_issue = (\<lambda>(s, e). frozen_frame_issue (real s) (real (e - s)))"

section \<open>Concrete inputs\<close>

definition three_medium_issues :: "issue list" where
  "three_medium_issues =
     replicate 3
       \<lparr>i_type = ''voice_glitch'', i_timestamp = ''00:00:01.000'', i_duration = 1 / 10,
        i_severity = ''medium'', i_description = ''Potential voice glitch detected (0.100 seconds)'',
        i_suggested_fix = ''Check for audio artifacts or encoding issues''\<rparr>"

text \<open>Libraries of which every call raises.\<close>

definition failing_libs :: libs where
  "failing_libs =
     (let e = PyException ''RuntimeError'' ''unavailable''
      in \<lparr>integrated_loudness = (\<lambda>_ _. Inl e),
          zero_crossing_rate = (\<lambda>_ _ _. Inl e),
          rms_feature = (\<lambda>_ _ _. Inl e),
          np_percentile = (\<lambda>_ _. Inl e),
          open_clip = (\<lambda>_. Inl e),
          getsize = (\<lambda>_. Inl e),
          ffmpeg_probe = (\<lambda>_. Inl e)\<rparr>)"

text \<open>
  A six-second clip of one-pixel frames without an audio stream: the frames at seconds 1
  to 4 are identical, the first and the last differ from them.
\<close>

definition mute_clip :: video_clip where
  "mute_clip =
     \<lparr>clip_duration = 6, clip_fps = 25, clip_w = 1, clip_h = 1, clip_audio = None,
      gray_frame = (\<lambda>k. Inr (if k = 0 then [10] else if k < 5 then [50] else [90]))\<rparr>"

definition mute_analyzer :: video_analyzer where
  "mute_analyzer = (VideoAnalyzer ''clip.mp4'')\<lparr>va_video_clip := Some mute_clip\<rparr>"

text \<open>
  A four-second clip of one-pixel frames whose gray value alternates between 100 and 116:
  consecutive samples differ by 16 at every pixel.
\<close>

definition wrap_clip :: video_clip where
  "wrap_clip =
     \<lparr>clip_duration = 4, clip_fps = 25, clip_w = 1, clip_h = 1, clip_audio = None,
      gray_frame = (\<lambda>k. Inr (if even k then [100] else [116]))\<rparr>"

definition wrap_analyzer :: video_analyzer where
  "wrap_analyzer = (VideoAnalyzer ''clip.mp4'')\<lparr>va_video_clip := Some wrap_clip\<rparr>"

definition empty_world :: world where
  "empty_world = \<lparr>status_store = Map.empty, result_store = Map.empty, status_writes = []\<rparr>"

section \<open>Decimal texts read back\<close>

lemma digit_val_digit_char: "d < 10 \<Longrightarrow> digit_val (digit_char d) = Some d"
  by (auto simp: digit_val_def digit_char_def less_Suc_eq numeral_eq_Suc)

lemma is_digit_digit_char: "d < 10 \<Longrightarrow> is_digit (digit_char d)"
  by (simp add: is_digit_def digit_val_digit_char)

lemma is_digit_not_punct:
  "is_digit c \<Longrightarrow> c \<noteq> CHR '':'' \<and> c \<noteq> CHR ''.'' \<and> c \<noteq> CHR ''-'' \<and> c \<noteq> CHR ''+''"
  by (auto simp: is_digit_def digit_val_def)

lemma is_digit_zero: "is_digit (CHR ''0'')"
  by (simp add: is_digit_def digit_val_def)

lemma show_nat_digits: "list_all is_digit (show_nat n)"
proof (induction n rule: show_nat.induct)
  case (1 n)
  show ?case
  proof (cases "n < 10")
    case True
    then show ?thesis by (simp add: show_nat.simps [of n] is_digit_digit_char)
  next
    case False
    with 1 show ?thesis by (simp add: show_nat.simps [of n] is_digit_digit_char)
  qed
qed

lemma show_nat_nonempty: "show_nat n \<noteq> []"
  by (simp add: show_nat.simps [of n])

lemma digits_value_snoc: "digits_value (s @ [c]) = 10 * digits_value s + the (digit_val c)"
  by (simp add: digits_value_def)

lemma digits_value_show_nat: "digits_value (show_nat n) = n"
proof (induction n rule: show_nat.induct)
  case (1 n)
  show ?case
  proof (cases "n < 10")
    case True
    then show ?thesis
      by (simp add: show_nat.simps [of n] digits_value_def digit_val_digit_char)
  next
    case False
    with 1 have "digits_value (show_nat (n div 10)) = n div 10" by simp
    with False show ?thesis
      by (simp add: show_nat.simps [of n] digits_value_snoc digit_val_digit_char)
  qed
qed

lemma digits_value_zeros: "digits_value (replicate k (CHR ''0'') @ s) = digits_value s"
proof -
  have "foldl (\<lambda>acc c. 10 * acc + the (digit_val c)) 0 (replicate k (CHR ''0'')) = 0"
    by (induction k) (simp_all add: digit_val_def)
  then show ?thesis by (simp add: digits_value_def)
qed

lemma zfill_digits: "list_all is_digit s \<Longrightarrow> list_all is_digit (zfill w s)"
  by (auto simp: zfill_def is_digit_zero list_all_iff)

lemma parse_digits_zfill: "parse_digits (zfill w (show_nat n)) = Some n"
proof -
  have "list_all is_digit (zfill w (show_nat n))"
    by (rule zfill_digits) (rule show_nat_digits)
  moreover have "zfill w (show_nat n) \<noteq> []"
    by (simp add: zfill_def show_nat_nonempty)
  moreover have "digits_value (zfill w (show_nat n)) = n"
    by (simp add: zfill_def digits_value_zeros digits_value_show_nat)
  ultimately show ?thesis by (simp add: parse_digits_def)
qed

lemma zfill_nonempty: "s \<noteq> [] \<Longrightarrow> zfill w s \<noteq> []"
  by (simp add: zfill_def)

lemma int_literal_digits:
  assumes "s \<noteq> []" and "list_all is_digit s"
  shows "int_literal s = map_option int (parse_digits s)"
proof -
  from assms obtain c r where s: "s = c # r" by (cases s) auto
  with assms have "is_digit c" by simp
  then have "c \<noteq> CHR ''-''" and "c \<noteq> CHR ''+''" using is_digit_not_punct by auto
  then show ?thesis by (simp add: int_literal_def s)
qed

lemma int_literal_format_02d: "int_literal (format_02d i) = Some i"
proof (cases "i < 0")
  case True
  then show ?thesis by (simp add: format_02d_def int_literal_def parse_digits_zfill)
next
  case False
  then show ?thesis
    by (simp add: format_02d_def int_literal_digits zfill_nonempty zfill_digits show_nat_nonempty
        show_nat_digits parse_digits_zfill)
qed

lemma py_int_format_02d: "py_int (format_02d i) = Inr i"
  by (simp add: py_int_def int_literal_format_02d)

lemma length_show_nat: "0 < k \<Longrightarrow> n < 10 ^ k \<Longrightarrow> length (show_nat n) \<le> k"
proof (induction n arbitrary: k rule: show_nat.induct)
  case (1 n)
  show ?case
  proof (cases "n < 10")
    case True
    with 1(2) show ?thesis by (simp add: show_nat.simps [of n] Suc_leI)
  next
    case False
    with 1(3) have k: "1 < k" by (cases "k = 1") (use 1(2) in auto)
    then obtain j where j: "k = Suc j" "0 < j" by (cases k) auto
    from 1(3) j have "n div 10 < 10 ^ j" by (simp add: less_mult_imp_div_less mult.commute)
    with 1(1) [OF False \<open>0 < j\<close>] have "length (show_nat (n div 10)) \<le> j" by simp
    with False j show ?thesis by (simp add: show_nat.simps [of n])
  qed
qed

lemma length_zfill_show_nat: "0 < k \<Longrightarrow> n < 10 ^ k \<Longrightarrow> length (zfill k (show_nat n)) = k"
  using length_show_nat [of k n] by (simp add: zfill_def)

lemma split_on_absent: "c \<notin> set s \<Longrightarrow> split_on c s = [s]"
  by (induction s) auto

lemma split_on_first: "c \<notin> set s \<Longrightarrow> split_on c (s @ c # t) = s # split_on c t"
  by (induction s) auto

lemma digits_no_char: "list_all is_digit s \<Longrightarrow> c \<in> {CHR '':'', CHR ''.'', CHR ''-'', CHR ''+''} \<Longrightarrow> c \<notin> set s"
  using is_digit_not_punct by (auto simp: list_all_iff)

lemma round_half_even_bounds: "\<bar>of_int (round_half_even z) - z\<bar> \<le> 1 / 2"
  unfolding round_half_even_def Let_def by (auto; linarith)

lemma round_half_even_nonneg: "0 \<le> z \<Longrightarrow> 0 \<le> round_half_even z"
  unfolding round_half_even_def Let_def by (auto; linarith)

lemma unsigned_float_fixed3:
  "unsigned_float (zfill w (fixed_digits 3 x)) = Some (real (nat (round_half_even (x * 1000))) / 1000)"
proof -
  define m where "m = nat (round_half_even (x * 1000))"
  define ip where "ip = replicate (w - length (fixed_digits 3 x)) (CHR ''0'') @ show_nat (m div 1000)"
  define fp where "fp = zfill 3 (show_nat (m mod 1000))"
  have eq: "zfill w (fixed_digits 3 x) = ip @ CHR ''.'' # fp"
    by (simp add: zfill_def fixed_digits_def Let_def ip_def fp_def m_def)
  have ipd: "list_all is_digit ip" and ipn: "ip \<noteq> []"
    using show_nat_digits [of "m div 1000"] show_nat_nonempty [of "m div 1000"]
    by (auto simp: ip_def is_digit_zero list_all_iff)
  have fpd: "list_all is_digit fp" and fpn: "fp \<noteq> []"
    by (simp_all add: fp_def zfill_digits show_nat_digits zfill_nonempty show_nat_nonempty)
  have len: "length fp = 3"
    unfolding fp_def by (rule length_zfill_show_nat) simp_all
  have sp: "split_on (CHR ''.'') (ip @ CHR ''.'' # fp) = [ip, fp]"
    using digits_no_char [OF ipd, of "CHR ''.''"] digits_no_char [OF fpd, of "CHR ''.''"]
    by (simp add: split_on_first split_on_absent)
  have vi: "parse_digits ip = Some (m div 1000)"
    using ipd ipn by (simp add: parse_digits_def ip_def digits_value_zeros digits_value_show_nat)
  have vf: "parse_digits fp = Some (m mod 1000)"
    by (simp add: fp_def parse_digits_zfill)
  have "real (m div 1000) + real (m mod 1000) / 1000 = real m / 1000"
  proof -
    have "real m = real (1000 * (m div 1000) + m mod 1000)" by simp
    also have "\<dots> = 1000 * real (m div 1000) + real (m mod 1000)"
      by (simp only: of_nat_add of_nat_mult of_nat_numeral)
    finally show ?thesis by (simp add: field_simps)
  qed
  then show ?thesis
    by (simp add: eq sp unsigned_float_def vi vf len m_def)
qed

lemma py_float_format_secs:
  assumes "0 \<le> x"
  shows "py_float (format_f 6 3 x) = Inr (of_int (round_half_even (x * 1000)) / 1000)"
proof -
  define s where "s = zfill 6 (fixed_digits 3 x)"
  have "fixed_digits 3 x \<noteq> []"
    by (simp add: fixed_digits_def Let_def show_nat_nonempty)
  then have "s \<noteq> []" by (simp add: s_def zfill_def)
  then obtain c r where s: "s = c # r" by (cases s) auto
  have "hd s = CHR ''0'' \<or> hd s = hd (show_nat (nat (round_half_even (x * 1000)) div 1000))"
    by (cases "6 - length (fixed_digits 3 x)")
      (simp_all add: s_def zfill_def fixed_digits_def Let_def show_nat_nonempty)
  moreover have "is_digit (hd (show_nat k))" for k
    using show_nat_digits [of k] show_nat_nonempty [of k] by (cases "show_nat k") simp_all
  ultimately have "is_digit c" using s is_digit_zero by auto
  then have c: "c \<noteq> CHR ''-''" "c \<noteq> CHR ''+''" using is_digit_not_punct by auto
  have "0 \<le> round_half_even (x * 1000)"
    using assms by (intro round_half_even_nonneg) simp
  then have "real (nat (round_half_even (x * 1000))) = of_int (round_half_even (x * 1000))"
    by simp
  moreover have "float_literal s = unsigned_float s"
    using c by (simp add: float_literal_def s)
  ultimately show ?thesis
    using assms unsigned_float_fixed3 [of 6 x] by (simp add: py_float_def format_f_def s_def)
qed

lemma py_fmod_range: "0 < m \<Longrightarrow> 0 \<le> py_fmod x m \<and> py_fmod x m < m"
proof -
  assume m: "0 < m"
  define q where "q = \<lfloor>x / m\<rfloor>"
  have "of_int q \<le> x / m" "x / m < of_int q + 1" unfolding q_def by linarith+
  with m have "of_int q * m \<le> x" "x < (of_int q + 1) * m"
    by (simp_all add: pos_le_divide_eq pos_divide_less_eq)
  then show ?thesis by (simp add: py_fmod_def algebra_simps flip: q_def)
qed

lemma seconds_decomposition:
  "of_int \<lfloor>x / 3600\<rfloor> * 3600 + of_int \<lfloor>py_fmod x 3600 / 60\<rfloor> * 60 + py_fmod x 60 = x"
proof -
  have "py_fmod x 3600 / 60 = x / 60 - of_int (60 * \<lfloor>x / 3600\<rfloor>)"
    by (simp add: py_fmod_def field_simps)
  then have "\<lfloor>py_fmod x 3600 / 60\<rfloor> = \<lfloor>x / 60\<rfloor> - 60 * \<lfloor>x / 3600\<rfloor>"
    by (simp only: floor_diff_of_int)
  then show ?thesis by (simp add: py_fmod_def)
qed

lemma parsed_timestamp_value:
  "timestamp_to_seconds (seconds_to_timestamp x) =
     Inr (of_int \<lfloor>x / 3600\<rfloor> * 3600 + of_int \<lfloor>py_fmod x 3600 / 60\<rfloor> * 60
           + of_int (round_half_even (py_fmod x 60 * 1000)) / 1000)"
proof -
  define h where "h = format_02d \<lfloor>x / 3600\<rfloor>"
  define m where "m = format_02d \<lfloor>py_fmod x 3600 / 60\<rfloor>"
  define s where "s = format_f 6 3 (py_fmod x 60)"
  have nocolon02: "CHR '':'' \<notin> set (format_02d i)" for i
  proof -
    have "list_all is_digit (zfill w (show_nat k))" for w k
      by (rule zfill_digits) (rule show_nat_digits)
    then have "CHR '':'' \<notin> set (zfill w (show_nat k))" for w k
      using digits_no_char [of "zfill w (show_nat k)" "CHR '':''"] by simp
    then show ?thesis by (simp add: format_02d_def)
  qed
  have secs: "0 \<le> py_fmod x 60" using py_fmod_range [of 60 x] by simp
  have "CHR '':'' \<notin> set (fixed_digits 3 y)" for y
  proof -
    have "CHR '':'' \<notin> set (show_nat k)" "CHR '':'' \<notin> set (zfill w (show_nat k))" for w k
      using digits_no_char [of "show_nat k" "CHR '':''"] show_nat_digits [of k]
        digits_no_char [of "zfill w (show_nat k)" "CHR '':''"] zfill_digits [OF show_nat_digits, of w k]
      by simp_all
    then show ?thesis by (simp add: fixed_digits_def Let_def)
  qed
  then have nocolons: "CHR '':'' \<notin> set s"
    using secs by (simp add: s_def format_f_def zfill_def)
  have "seconds_to_timestamp x = h @ CHR '':'' # m @ CHR '':'' # s"
    by (simp add: seconds_to_timestamp_def Let_def h_def m_def s_def)
  then have "split_on (CHR '':'') (seconds_to_timestamp x) = [h, m, s]"
    using nocolon02 nocolons by (simp add: split_on_first split_on_absent h_def m_def)
  then show ?thesis
    using secs by (simp add: timestamp_to_seconds_def h_def m_def s_def py_int_format_02d py_float_format_secs)
qed

section \<open>The grouping code computes the maximal runs\<close>

lemma np_where_Cons: "np_where (b # bs) = (if b then [0] else []) @ map Suc (np_where bs)"
proof -
  have "[0..<length (b # bs)] = 0 # map Suc [0..<length bs]"
    by (simp add: upt_conv_Cons map_Suc_upt del: upt_Suc)
  then show ?thesis
    by (simp add: np_where_def filter_map comp_def del: upt_Suc)
qed

lemma np_where_Nil: "np_where [] = []"
  by (simp add: np_where_def)

lemma edges_Nil: "edges prev [] = ([], if prev then [0] else [])"
  by (simp add: edges_def np_where_Cons np_where_Nil)

lemma edges_Cons:
  "edges prev (f # fs) =
     ((if f \<and> \<not> prev then [0] else []) @ map Suc (fst (edges f fs)),
      (if prev \<and> \<not> f then [0] else []) @ map Suc (snd (edges f fs)))"
  by (simp add: edges_def np_where_Cons Let_def)

lemma zip_edges:
  "(\<not> prev \<longrightarrow> zip (map ((+) k) (fst (edges prev fs))) (map ((+) k) (snd (edges prev fs))) = run_spans None k fs)
   \<and> (prev \<longrightarrow> zip (s # map ((+) k) (fst (edges prev fs))) (map ((+) k) (snd (edges prev fs))) = run_spans (Some s) k fs)"
proof (induction fs arbitrary: k prev s)
  case Nil
  show ?case by (simp add: edges_Nil)
next
  case (Cons f fs)
  show ?case
    using Cons.IH [of f "Suc k" s] Cons.IH [of f "Suc k" k]
    by (cases prev; cases f) (simp_all add: edges_Cons comp_def)
qed

lemma flagged_spans_run_spans: "flagged_spans flags = run_spans None 0 flags"
proof -
  have "flagged_spans flags = zip (fst (edges False flags)) (snd (edges False flags))"
    by (simp add: flagged_spans_def edges_def Let_def)
  also have "\<dots> = zip (map ((+) 0) (fst (edges False flags))) (map ((+) 0) (snd (edges False flags)))"
    by (simp add: map_idI)
  also have "\<dots> = run_spans None 0 flags"
    using zip_edges [of False 0 flags] by blast
  finally show ?thesis .
qed

lemma run_spans_bounds:
  "(a, b) \<in> set (run_spans opn k fs) \<Longrightarrow>
     (case opn of None \<Rightarrow> k \<le> a \<and> a < b | Some s \<Rightarrow> (a = s \<and> k \<le> b) \<or> (k < a \<and> a < b))"
  by (induction opn k fs rule: run_spans.induct) (auto split: if_splits)

lemma run_spans_sorted:
  "sorted_wrt (\<lambda>(s, e) (s', e'). e < s') (run_spans opn k fs)"
proof (induction opn k fs rule: run_spans.induct)
  case (4 s k f fs)
  have "k < a" if "(a, b) \<in> set (run_spans None (Suc k) fs)" for a b
    using run_spans_bounds [OF that] by simp
  with 4 show ?case by auto
qed simp_all

lemma run_start_unique:
  assumes "\<forall>i\<in>{s..<e}. F ! i" "s = 0 \<or> \<not> F ! (s - 1)"
    and "\<forall>i\<in>{a..<b}. F ! i" "a = 0 \<or> \<not> F ! (a - 1)"
    and "s \<le> i" "i < e" "a \<le> i" "i < b"
  shows "a = s"
proof (rule ccontr)
  assume "a \<noteq> s"
  then consider "a < s" | "s < a" by linarith
  then show False
  proof cases
    case 1
    then have "s - 1 \<in> {a..<b}" "s \<noteq> 0" using assms(5,8) by auto
    with assms(2,3) show False by blast
  next
    case 2
    then have "a - 1 \<in> {s..<e}" "a \<noteq> 0" using assms(6,7) by auto
    with assms(1,4) show False by blast
  qed
qed

lemma run_spans_mem:
  assumes "k \<le> length F" "open_ok F k opn"
  shows "(a, b) \<in> set (run_spans opn k (drop k F)) \<longleftrightarrow>
           is_maximal_run F a b \<and> k \<le> b \<and> (opn = None \<longrightarrow> k \<le> a)"
  using assms
proof (induction "length F - k" arbitrary: k opn)
  case 0
  then have k: "k = length F" by simp
  show ?case
  proof (cases opn)
    case None
    then show ?thesis using k by (auto simp: is_maximal_run_def)
  next
    case (Some s)
    with 0(3) have s: "s < k" "\<forall>i\<in>{s..<k}. F ! i" "s = 0 \<or> \<not> F ! (s - 1)"
      by (simp_all add: open_ok_def)
    have "is_maximal_run F s k" using s k by (simp add: is_maximal_run_def)
    moreover have "a = s \<and> b = k" if "is_maximal_run F a b" "k \<le> b"
    proof -
      from that k have b: "b = k" by (simp add: is_maximal_run_def)
      from that have r: "a < b" "\<forall>i\<in>{a..<b}. F ! i" "a = 0 \<or> \<not> F ! (a - 1)"
        by (simp_all add: is_maximal_run_def)
      have "a = s"
        by (rule run_start_unique [OF s(2,3) r(2,3), of "k - 1"]) (use s r b in auto)
      with b show ?thesis by simp
    qed
    ultimately show ?thesis using Some k by auto
  qed
next
  case (Suc m)
  then have lt: "k < length F" by simp
  then have dr: "drop k F = F ! k # drop (Suc k) F" by (simp add: Cons_nth_drop_Suc)
  have m: "m = length F - Suc k" using Suc(2) by simp
  have le: "Suc k \<le> length F" using lt by simp
  show ?case
  proof (cases opn)
    case None
    with Suc(4) have inv: "k = 0 \<or> \<not> F ! (k - 1)" by (simp add: open_ok_def)
    show ?thesis
    proof (cases "F ! k")
      case True
      have ok: "open_ok F (Suc k) (Some k)" using True inv by (auto simp: open_ok_def less_Suc_eq)
      have "k \<le> a" if "is_maximal_run F a b" "Suc k \<le> b"
      proof (rule ccontr)
        assume "\<not> k \<le> a"
        then have "k - 1 \<in> {a..<b}" "k \<noteq> 0" using that(2) by auto
        with that(1) inv show False by (auto simp: is_maximal_run_def)
      qed
      moreover have "Suc k \<le> b" if "is_maximal_run F a b" "k \<le> a"
        using that by (simp add: is_maximal_run_def)
      ultimately show ?thesis
        using Suc(1) [OF m le ok] None True by (auto simp: dr)
    next
      case False
      have ok: "open_ok F (Suc k) None" using False by (simp add: open_ok_def)
      have "Suc k \<le> a" if "is_maximal_run F a b" "k \<le> a"
      proof -
        from that have "F ! a" by (auto simp: is_maximal_run_def)
        with False have "a \<noteq> k" by auto
        with that show ?thesis by simp
      qed
      moreover have "Suc k \<le> b" if "is_maximal_run F a b" "k \<le> a"
        using that by (simp add: is_maximal_run_def)
      ultimately show ?thesis
        using Suc(1) [OF m le ok] None False by (auto simp: dr)
    qed
  next
    case (Some s)
    with Suc(4) have s: "s < k" "\<forall>i\<in>{s..<k}. F ! i" "s = 0 \<or> \<not> F ! (s - 1)"
      by (simp_all add: open_ok_def)
    show ?thesis
    proof (cases "F ! k")
      case True
      have ok: "open_ok F (Suc k) (Some s)" using True s by (auto simp: open_ok_def less_Suc_eq)
      have "Suc k \<le> b" if "is_maximal_run F a b" "k \<le> b"
      proof -
        from that True have "b \<noteq> k" using lt by (auto simp: is_maximal_run_def)
        with that show ?thesis by simp
      qed
      then show ?thesis
        using Suc(1) [OF m le ok] Some True by (auto simp: dr)
    next
      case False
      have ok: "open_ok F (Suc k) None" using False by (simp add: open_ok_def)
      have run: "is_maximal_run F s k" using s False lt by (simp add: is_maximal_run_def)
      have "(a = s \<and> b = k) \<or> (Suc k \<le> a \<and> Suc k \<le> b)" if "is_maximal_run F a b" "k \<le> b"
      proof -
        from that have r: "a < b" "\<forall>i\<in>{a..<b}. F ! i" "a = 0 \<or> \<not> F ! (a - 1)"
          by (simp_all add: is_maximal_run_def)
        have ak: "a \<noteq> k" using r False by auto
        show ?thesis
        proof (cases "a < k")
          case True
          have "b = k"
          proof (rule ccontr)
            assume "b \<noteq> k"
            then have "k \<in> {a..<b}" using that(2) True by auto
            with r(2) False show False by blast
          qed
          moreover have "a = s"
            by (rule run_start_unique [OF s(2,3) r(2,3), of "k - 1"]) (use s r True \<open>b = k\<close> in auto)
          ultimately show ?thesis by simp
        next
          case False
          with ak r show ?thesis by simp
        qed
      qed
      with run show ?thesis
        using Suc(1) [OF m le ok] Some False by (auto simp: dr)
    qed
  qed
qed

lemma run_spans_maximal:
  "set (run_spans None 0 flags) = {(s, e). is_maximal_run flags s e}"
  using run_spans_mem [of 0 flags None] by (auto simp: open_ok_def)

section \<open>Claims\<close>

subsection \<open>Timestamps\<close>

lemma seconds_to_timestamp_example: "seconds_to_timestamp (59601 / 16) = ''01:02:05.062''"
  by (simp add: seconds_to_timestamp_def py_fmod_def format_02d_def format_f_def fixed_digits_def
      round_half_even_def zfill_def show_nat.simps digit_char_def Let_def)

lemma timestamp_to_seconds_example: "timestamp_to_seconds ''01:02:05.062'' = Inr (3725062 / 1000)"
  by (simp add: timestamp_to_seconds_def py_int_def int_literal_def py_float_def float_literal_def
      unsigned_float_def parse_digits_def is_digit_def digit_val_def digits_value_def)

text \<open>
  Claim C7. For every non-negative real number of seconds, \<^verbatim>\<open>_seconds_to_timestamp\<close>
  followed by \<^verbatim>\<open>_timestamp_to_seconds\<close> succeeds and yields a value within one
  millisecond of the original (in fact within half a millisecond: the only loss is the
  rounding of the seconds field to three decimals).
\<close>

theorem timestamp_roundtrip:
  "0 \<le> x \<Longrightarrow> \<exists>y. timestamp_to_seconds (seconds_to_timestamp x) = Inr y \<and> \<bar>y - x\<bar> < 1 / 1000"
proof -
  define r where "r = py_fmod x 60"
  have b: "\<bar>of_int (round_half_even (r * 1000)) - r * 1000\<bar> \<le> 1 / 2"
    by (rule round_half_even_bounds)
  have d: "of_int \<lfloor>x / 3600\<rfloor> * 3600 + of_int \<lfloor>py_fmod x 3600 / 60\<rfloor> * 60 + r = x"
    unfolding r_def by (rule seconds_decomposition)
  have "\<bar>of_int \<lfloor>x / 3600\<rfloor> * 3600 + of_int \<lfloor>py_fmod x 3600 / 60\<rfloor> * 60
           + of_int (round_half_even (r * 1000)) / 1000 - x\<bar> < 1 / 1000"
    using b d by (auto simp: abs_if field_simps split: if_splits)
  then show ?thesis
    by (simp add: parsed_timestamp_value r_def)
qed

text \<open>The round trip at 3725.0625 seconds, a tie of the rounding.\<close>

theorem timestamp_roundtrip_witness:
  "(0::real) \<le> 59601 / 16 \<and>
   (\<exists>y. timestamp_to_seconds (seconds_to_timestamp (59601 / 16)) = Inr y \<and> \<bar>y - 59601 / 16\<bar> < 1 / 1000)"
  using timestamp_roundtrip [of "59601 / 16"] by simp

subsection \<open>Summary status\<close>

text \<open>
  Claim C1, as stated, fails: three medium-severity issues and nothing else give the status
  \<^verbatim>\<open>PASS\<close>, where the policy of the claim gives \<^verbatim>\<open>WARNING\<close>.
\<close>

theorem generate_summary_status_counterexample:
  "sm_status (generate_summary three_medium_issues [] []) = ''PASS'' \<and>
   canonical_status (severity_count ''high'' (three_medium_issues @ []))
     (severity_count ''medium'' (three_medium_issues @ []))
     (length three_medium_issues + length ([] :: issue list)) = ''WARNING''"
  by (simp add: generate_summary_def three_medium_issues_def canonical_status_def severity_count_def)

text \<open>
  Claim C1, amended. \<^verbatim>\<open>generate_summary\<close> knows two statuses: \<^verbatim>\<open>FAIL\<close> when there is a
  high-severity issue or when there are more than five issues in total, \<^verbatim>\<open>PASS\<close>
  otherwise. It never yields \<^verbatim>\<open>WARNING\<close> and does not count medium-severity issues. The
  three-valued policy is the one \<^verbatim>\<open>analyze_video_simple\<close> applies.
\<close>

theorem generate_summary_status:
  "sm_status (generate_summary audio_issues video_issues metrics) =
     (if 0 < severity_count ''high'' (audio_issues @ video_issues)
         \<or> 5 < length audio_issues + length video_issues
      then ''FAIL'' else ''PASS'')
   \<and> sm_total_issues (generate_summary audio_issues video_issues metrics) =
       length audio_issues + length video_issues
   \<and> sm_high_severity_issues (generate_summary audio_issues video_issues metrics) =
       severity_count ''high'' (audio_issues @ video_issues)
   \<and> analyze_video_simple_status audio_issues video_issues =
       canonical_status (severity_count ''high'' (audio_issues @ video_issues))
         (severity_count ''medium'' (audio_issues @ video_issues))
         (length audio_issues + length video_issues)"
  by (simp add: generate_summary_def analyze_video_simple_status_def canonical_status_def
      Let_def severity_count_def)

subsection \<open>Missing audio stream, missing media handle\<close>

text \<open>
  Claim C2, as stated, fails: on a clip without an audio stream \<^verbatim>\<open>analyze_audio\<close> returns
  the empty list, not a list holding one \<^verbatim>\<open>no_audio\<close> issue.
\<close>

theorem analyze_audio_no_stream_counterexample:
  "clip_audio mute_clip = None \<and>
   fst (analyze_audio failing_libs mute_analyzer) = Inr [] \<and>
   map i_type (projr (fst (analyze_audio failing_libs mute_analyzer))) \<noteq> [''no_audio'']"
  by (simp add: analyze_audio_def mute_analyzer_def mute_clip_def)

text \<open>
  Claim C2, amended. For every media handle without an audio stream, \<^verbatim>\<open>analyze_audio\<close>
  performs none of the audio checks (the analyzer is left as it was, no samples and no
  sample rate stored) and returns the empty issue list. The list of exactly one
  \<^verbatim>\<open>no_audio\<close> issue of severity \<^verbatim>\<open>medium\<close> is what the audio stage of
  \<^verbatim>\<open>analyze_video_simple\<close> yields.
\<close>

theorem analyze_audio_no_stream:
  "va_video_clip self = Some clip \<Longrightarrow> clip_audio clip = None \<Longrightarrow>
     analyze_audio L self = (Inr [], self)
     \<and> analyze_video_simple_audio clip checked = [no_audio_issue (clip_duration clip)]
     \<and> i_type (no_audio_issue (clip_duration clip)) = ''no_audio''
     \<and> i_severity (no_audio_issue (clip_duration clip)) = ''medium''"
  by (simp add: analyze_audio_def analyze_video_simple_audio_def no_audio_issue_def)

theorem analyze_audio_no_stream_witness:
  "va_video_clip mute_analyzer = Some mute_clip \<and> clip_audio mute_clip = None \<and>
   analyze_audio failing_libs mute_analyzer = (Inr [], mute_analyzer) \<and>
   analyze_video_simple_audio mute_clip [] = [no_audio_issue 6]"
proof -
  have a: "va_video_clip mute_analyzer = Some mute_clip" by (simp add: mute_analyzer_def)
  have b: "clip_audio mute_clip = None" by (simp add: mute_clip_def)
  show ?thesis
    using a b analyze_audio_no_stream [OF a b, of failing_libs "[]"] by (simp add: mute_clip_def)
qed

text \<open>
  Claim C10. On an analyzer without a media handle, \<^verbatim>\<open>analyze_audio\<close> and
  \<^verbatim>\<open>analyze_video\<close> return the empty issue list and \<^verbatim>\<open>compute_metrics\<close> returns the
  empty dictionary; none of them raises.
\<close>

theorem no_media_handle:
  "va_video_clip self = None \<Longrightarrow>
     analyze_audio L self = (Inr [], self) \<and> analyze_video self = Inr [] \<and> compute_metrics L self = Inr []"
  by (simp add: analyze_audio_def analyze_video_def compute_metrics_def)

theorem no_media_handle_witness:
  "va_video_clip (VideoAnalyzer ''clip.mp4'') = None \<and>
   analyze_audio failing_libs (VideoAnalyzer ''clip.mp4'') = (Inr [], VideoAnalyzer ''clip.mp4'') \<and>
   analyze_video (VideoAnalyzer ''clip.mp4'') = Inr [] \<and>
   compute_metrics failing_libs (VideoAnalyzer ''clip.mp4'') = Inr []"
proof -
  have a: "va_video_clip (VideoAnalyzer ''clip.mp4'') = None" by (simp add: VideoAnalyzer_def)
  show ?thesis using a no_media_handle [OF a, of failing_libs] by simp
qed

subsection \<open>Job status\<close>

lemma status_writes_update:
  "status_writes (update_job_status job_id state progress stage error w) =
     status_writes w @ [\<lparr>js_job_id = job_id, js_state = state, js_progress = progress, js_stage = stage,
        js_error = (case error of None \<Rightarrow> None | Some e \<Rightarrow> if e = [] then None else Some e)\<rparr>]"
  by (simp add: update_job_status_def Let_def)

lemma status_writes_result: "status_writes (update_job_result job_id result w) = status_writes w"
  by (simp add: update_job_result_def)

lemma status_store_update:
  "j \<noteq> job_id \<Longrightarrow>
     status_store (update_job_status j state progress stage error w) job_id = status_store w job_id"
  by (simp add: update_job_status_def Let_def)

lemma status_store_result: "status_store (update_job_result j result w) = status_store w"
  by (simp add: update_job_result_def)

lemmas trace_simps = status_writes_update status_writes_result progress_monotone_before_terminal_def
  progress_nondecreasing_def no_running_after_terminal_def is_terminal_def sync_failed_def
  task_failed_def

lemma sync_writes:
  "\<exists>tr. status_writes (analyze_video_sync L job_id file_path w) = status_writes w @ tr
     \<and> progress_monotone_before_terminal tr \<and> no_running_after_terminal tr
     \<and> tr \<noteq> [] \<and> is_terminal (last tr)
     \<and> (js_state (last tr) = ''DONE'' \<and> js_progress (last tr) = 100 \<and> progress_nondecreasing tr
          \<or> js_state (last tr) = ''ERROR'' \<and> js_progress (last tr) = 0)"
proof -
  obtain r1 a1 where e1: "extract_metadata L (VideoAnalyzer file_path) = (r1, a1)" by fastforce
  obtain r2 a2 where e2: "analyze_audio L a1 = (r2, a2)" by fastforce
  show ?thesis
  proof (cases r1)
    case Inl
    then show ?thesis by (simp add: analyze_video_sync_def e1 trace_simps)
  next
    case m: Inr
    show ?thesis
    proof (cases r2)
      case Inl
      then show ?thesis by (simp add: analyze_video_sync_def e1 e2 m trace_simps)
    next
      case a: Inr
      show ?thesis
      proof (cases "analyze_video a2")
        case Inl
        then show ?thesis by (simp add: analyze_video_sync_def e1 e2 m a trace_simps)
      next
        case v: Inr
        show ?thesis
          by (cases "compute_metrics L a2")
            (simp_all add: analyze_video_sync_def e1 e2 m a v trace_simps)
      qed
    qed
  qed
qed

lemma task_writes:
  "\<exists>tr. status_writes (snd (analyze_video_task L tb job_id file_path w)) = status_writes w @ tr
     \<and> progress_monotone_before_terminal tr \<and> no_running_after_terminal tr
     \<and> tr \<noteq> [] \<and> is_terminal (last tr)
     \<and> (js_state (last tr) = ''DONE'' \<and> js_progress (last tr) = 100 \<and> progress_nondecreasing tr
          \<or> js_state (last tr) = ''ERROR'' \<and> js_progress (last tr) = 0)"
proof -
  obtain r1 a1 where e1: "extract_metadata L (VideoAnalyzer file_path) = (r1, a1)" by fastforce
  obtain r2 a2 where e2: "analyze_audio L a1 = (r2, a2)" by fastforce
  show ?thesis
  proof (cases r1)
    case Inl
    then show ?thesis by (simp add: analyze_video_task_def e1 trace_simps)
  next
    case m: Inr
    show ?thesis
    proof (cases r2)
      case Inl
      then show ?thesis by (simp add: analyze_video_task_def e1 e2 m trace_simps)
    next
      case a: Inr
      show ?thesis
      proof (cases "analyze_video a2")
        case Inl
        then show ?thesis by (simp add: analyze_video_task_def e1 e2 m a trace_simps)
      next
        case v: Inr
        show ?thesis
          by (cases "compute_metrics L a2")
            (simp_all add: analyze_video_task_def e1 e2 m a v trace_simps Let_def)
      qed
    qed
  qed
qed

lemma sync_other_job:
  assumes "j \<noteq> job_id"
  shows "status_store (analyze_video_sync L j file_path w) job_id = status_store w job_id"
proof -
  obtain r1 a1 where e1: "extract_metadata L (VideoAnalyzer file_path) = (r1, a1)" by fastforce
  obtain r2 a2 where e2: "analyze_audio L a1 = (r2, a2)" by fastforce
  note s = analyze_video_sync_def sync_failed_def status_store_update [OF assms] status_store_result
  show ?thesis
  proof (cases r1)
    case Inl
    then show ?thesis by (simp add: e1 s)
  next
    case m: Inr
    show ?thesis
    proof (cases r2)
      case Inl
      then show ?thesis by (simp add: e1 e2 m s)
    next
      case a: Inr
      show ?thesis
      proof (cases "analyze_video a2")
        case Inl
        then show ?thesis by (simp add: e1 e2 m a s)
      next
        case v: Inr
        show ?thesis
          by (cases "compute_metrics L a2") (simp_all add: e1 e2 m a v s)
      qed
    qed
  qed
qed

lemma task_other_job:
  assumes "j \<noteq> job_id"
  shows "status_store (snd (analyze_video_task L tb j file_path w)) job_id = status_store w job_id"
proof -
  obtain r1 a1 where e1: "extract_metadata L (VideoAnalyzer file_path) = (r1, a1)" by fastforce
  obtain r2 a2 where e2: "analyze_audio L a1 = (r2, a2)" by fastforce
  note s = analyze_video_task_def task_failed_def status_store_update [OF assms] status_store_result Let_def
  show ?thesis
  proof (cases r1)
    case Inl
    then show ?thesis by (simp add: e1 s)
  next
    case m: Inr
    show ?thesis
    proof (cases r2)
      case Inl
      then show ?thesis by (simp add: e1 e2 m s)
    next
      case a: Inr
      show ?thesis
      proof (cases "analyze_video a2")
        case Inl
        then show ?thesis by (simp add: e1 e2 m a s)
      next
        case v: Inr
        show ?thesis
          by (cases "compute_metrics L a2") (simp_all add: e1 e2 m a v s)
      qed
    qed
  qed
qed

text \<open>
  A run that fails at its first stage: the writes are \<^verbatim>\<open>RUNNING\<close> 0, \<^verbatim>\<open>RUNNING\<close> 10 and
  \<^verbatim>\<open>ERROR\<close>, the last with progress 0.
\<close>

lemma failing_run_writes:
  "map (\<lambda>st. (js_state st, js_progress st))
     (status_writes (analyze_video_sync failing_libs ''j1'' ''clip.mp4'' empty_world)) =
     [(''RUNNING'', 0), (''RUNNING'', 10), (''ERROR'', 0)]"
  by (simp add: analyze_video_sync_def sync_failed_def status_writes_update extract_metadata_def
      failing_libs_def VideoAnalyzer_def empty_world_def Let_def)

lemma failing_task_writes:
  "map (\<lambda>st. (js_state st, js_progress st))
     (status_writes (snd (analyze_video_task failing_libs [] ''j1'' ''clip.mp4'' empty_world))) =
     [(''RUNNING'', 0), (''RUNNING'', 10), (''ERROR'', 0)]"
  by (simp add: analyze_video_task_def task_failed_def status_writes_update extract_metadata_def
      failing_libs_def VideoAnalyzer_def empty_world_def Let_def)

text \<open>
  Claim C3, as stated, fails: in a run whose first stage raises, the progress values
  written are 0, 10 and then 0, the last with the status \<^verbatim>\<open>ERROR\<close>; the sequence written
  over the run decreases at its terminal write. Both orchestrators do so.
\<close>

theorem progress_over_run_counterexample:
  "map js_progress (status_writes (analyze_video_sync failing_libs ''j1'' ''clip.mp4'' empty_world)) =
     [0, 10, 0]
   \<and> \<not> progress_nondecreasing
         (status_writes (analyze_video_sync failing_libs ''j1'' ''clip.mp4'' empty_world))
   \<and> map js_progress
         (status_writes (snd (analyze_video_task failing_libs [] ''j1'' ''clip.mp4'' empty_world))) =
       [0, 10, 0]
   \<and> \<not> progress_nondecreasing
         (status_writes (snd (analyze_video_task failing_libs [] ''j1'' ''clip.mp4'' empty_world)))"
proof -
  have a: "map js_progress (status_writes (analyze_video_sync failing_libs ''j1'' ''clip.mp4'' empty_world)) =
      [0, 10, 0]"
    using failing_run_writes
    by (simp add: analyze_video_sync_def sync_failed_def status_writes_update extract_metadata_def
      failing_libs_def VideoAnalyzer_def empty_world_def Let_def)
  have b: "map js_progress
         (status_writes (snd (analyze_video_task failing_libs [] ''j1'' ''clip.mp4'' empty_world))) =
       [0, 10, 0]"
    by (simp add: analyze_video_task_def task_failed_def status_writes_update extract_metadata_def
      failing_libs_def VideoAnalyzer_def empty_world_def Let_def)
  show ?thesis
    unfolding progress_nondecreasing_def a b by simp
qed

text \<open>
  Claim C3, amended. In every run of the orchestrator (the thread of \<^verbatim>\<open>app_simple.py\<close>
  and the Celery task alike) the progress values written before the terminal status never
  decrease, the terminal status (\<^verbatim>\<open>DONE\<close> or \<^verbatim>\<open>ERROR\<close>) is the last write of the run, and
  no \<^verbatim>\<open>RUNNING\<close> status is written from the terminal one on. A run that ends in
  \<^verbatim>\<open>DONE\<close> writes 100 last and its whole sequence of progress values never decreases; a
  run that ends in \<^verbatim>\<open>ERROR\<close> writes that status with progress 0.
\<close>

theorem progress_until_terminal:
  "(\<exists>tr. status_writes (analyze_video_sync L job_id file_path w) = status_writes w @ tr
      \<and> progress_monotone_before_terminal tr \<and> no_running_after_terminal tr
      \<and> tr \<noteq> [] \<and> is_terminal (last tr)
      \<and> (js_state (last tr) = ''DONE'' \<and> js_progress (last tr) = 100 \<and> progress_nondecreasing tr
           \<or> js_state (last tr) = ''ERROR'' \<and> js_progress (last tr) = 0))
   \<and> (\<exists>tr. status_writes (snd (analyze_video_task L tb job_id file_path w)) = status_writes w @ tr
      \<and> progress_monotone_before_terminal tr \<and> no_running_after_terminal tr
      \<and> tr \<noteq> [] \<and> is_terminal (last tr)
      \<and> (js_state (last tr) = ''DONE'' \<and> js_progress (last tr) = 100 \<and> progress_nondecreasing tr
           \<or> js_state (last tr) = ''ERROR'' \<and> js_progress (last tr) = 0))"
  using sync_writes task_writes by blast

theorem progress_until_terminal_witness:
  "progress_monotone_before_terminal
     (status_writes (analyze_video_sync failing_libs ''j1'' ''clip.mp4'' empty_world))
   \<and> no_running_after_terminal
     (status_writes (analyze_video_sync failing_libs ''j1'' ''clip.mp4'' empty_world))
   \<and> js_state (last (status_writes (analyze_video_sync failing_libs ''j1'' ''clip.mp4'' empty_world))) =
       ''ERROR''"
proof -
  have "js_state (last (status_writes (analyze_video_sync failing_libs ''j1'' ''clip.mp4'' empty_world))) =
       ''ERROR''"
    by (simp add: analyze_video_sync_def sync_failed_def status_writes_update extract_metadata_def
      failing_libs_def VideoAnalyzer_def empty_world_def Let_def)
  then show ?thesis
    using progress_until_terminal [of failing_libs "''j1''" "''clip.mp4''" empty_world]
    by (auto simp: empty_world_def)
qed

text \<open>
  Claim C8. A status query for a job identifier without an entry in the store (never
  submitted, or expired) returns the synthetic status with state \<^verbatim>\<open>NOT_FOUND\<close> and
  progress 0, which is not the state \<^verbatim>\<open>ERROR\<close>; the route of \<^verbatim>\<open>app_simple.py\<close> answers
  404 with it. Runs of other jobs leave it so.
\<close>

theorem unknown_job_not_found:
  assumes "status_store w job_id = None" and "j \<noteq> job_id"
  shows "get_job_status w job_id = not_found_status job_id
     \<and> js_state (get_job_status w job_id) = ''NOT_FOUND''
     \<and> js_progress (get_job_status w job_id) = 0
     \<and> js_state (get_job_status w job_id) \<noteq> ''ERROR''
     \<and> get_job_status_route w job_id = (not_found_status job_id, 404)
     \<and> get_job_status (analyze_video_sync L j file_path w) job_id = not_found_status job_id
     \<and> get_job_status (snd (analyze_video_task L tb j file_path w)) job_id = not_found_status job_id"
  using assms
  by (simp add: get_job_status_def get_job_status_route_def not_found_status_def
      sync_other_job task_other_job)

theorem unknown_job_not_found_witness:
  "status_store empty_world ''j2'' = None \<and> ''j1'' \<noteq> ''j2''
   \<and> js_state (get_job_status empty_world ''j2'') = ''NOT_FOUND''
   \<and> js_progress (get_job_status empty_world ''j2'') = 0
   \<and> js_state (get_job_status (analyze_video_sync failing_libs ''j1'' ''clip.mp4'' empty_world) ''j2'') = ''NOT_FOUND''"
proof -
  have a: "status_store empty_world ''j2'' = None" by (simp add: empty_world_def)
  have b: "''j1'' \<noteq> ''j2''" by simp
  show ?thesis
    using a b unknown_job_not_found [OF a b, of failing_libs "''clip.mp4''"]
    by (simp add: not_found_status_def)
qed

subsection \<open>Clipping and silence\<close>

lemma no_flag_no_span: "\<not> np_any flags \<Longrightarrow> flagged_spans flags = []"
proof -
  assume n: "\<not> np_any flags"
  have "\<not> is_maximal_run flags s e" for s e
  proof
    assume r: "is_maximal_run flags s e"
    then have l: "s < length flags" and f: "flags ! s" by (auto simp: is_maximal_run_def)
    from l have "flags ! s \<in> set flags" by (rule nth_mem)
    with f have "\<exists>b\<in>set flags. b" by blast
    with n show False by (simp add: np_any_def list_ex_iff)
  qed
  then have "set (flagged_spans flags) = {}"
    by (simp add: flagged_spans_run_spans run_spans_maximal)
  then show ?thesis by simp
qed

lemma flagged_spans_maximal: "set (flagged_spans flags) = {(s, e). is_maximal_run flags s e}"
  by (simp add: flagged_spans_run_spans run_spans_maximal)

lemma flagged_spans_apart: "spans_apart (flagged_spans flags)"
  by (simp add: spans_apart_def flagged_spans_run_spans run_spans_sorted)

lemma flagged_spans_ordered: "(s, e) \<in> set (flagged_spans flags) \<Longrightarrow> s < e"
  using run_spans_bounds [of s e None 0 flags] by (simp add: flagged_spans_run_spans)

lemma detect_clipping_grouped:
  "0 < sample_rate \<Longrightarrow>
     detect_clipping audio_data sample_rate =
       Inr (map (clipping_issue sample_rate) (flagged_spans (map (\<lambda>x. 99 / 100 \<le> \<bar>x\<bar>) audio_data)))"
  by (simp add: detect_clipping_def Let_def no_flag_no_span)

lemma detect_silences_grouped:
  "0 < sample_rate \<Longrightarrow>
     detect_silences audio_data sample_rate =
       Inr (map (silence_issue sample_rate)
              (filter (\<lambda>(s, e). 1 \<le> (real e - real s) / real sample_rate)
                 (flagged_spans (map (\<lambda>x. audio_db x < - 40) audio_data))))"
  by (simp add: detect_silences_def Let_def no_flag_no_span)

text \<open>The silence threshold without the logarithm: \<open>-40\<close> dB is the amplitude \<open>1/100\<close>.\<close>

lemma audio_db_below: "audio_db x < - 40 \<longleftrightarrow> \<bar>x\<bar> + 1 / 10 ^ 10 < 1 / 100"
proof -
  define y where "y = \<bar>x\<bar> + 1 / 10 ^ 10"
  have y: "0 < y" unfolding y_def by (smt (verit) divide_pos_pos zero_less_power)
  have "audio_db x < - 40 \<longleftrightarrow> log 10 y < - 2" by (simp add: audio_db_def y_def)
  also have "\<dots> \<longleftrightarrow> y < 10 powr (- 2)" using y by (simp add: log_less_iff)
  also have "10 powr (- 2 :: real) = 1 / 100" by (simp add: powr_minus_divide)
  finally show ?thesis by (simp add: y_def)
qed

lemma run_spans_all_true: "run_spans (Some s) k (replicate m True) = [(s, k + m)]"
  by (induction m arbitrary: k) simp_all

lemma flagged_spans_all_true: "0 < n \<Longrightarrow> flagged_spans (replicate n True) = [(0, n)]"
  by (cases n) (simp_all add: flagged_spans_run_spans run_spans_all_true)

lemma zero_timestamp: "seconds_to_timestamp 0 = ''00:00:00.000''"
  by (simp add: seconds_to_timestamp_def py_fmod_def format_02d_def format_f_def fixed_digits_def
      round_half_even_def zfill_def show_nat.simps digit_char_def Let_def numeral_2_eq_2)

text \<open>The detector on six samples at two samples per second.\<close>

lemma flagged_spans_example:
  "flagged_spans [False, True, True, False, True, False] = [(1, 3), (4, 5)]"
  by (simp add: flagged_spans_def np_where_def Let_def nth_Cons')

lemma clipping_example:
  "map (\<lambda>i. (i_type i, i_timestamp i, i_duration i, i_severity i))
     (projr (detect_clipping [0, 1, 1, 1 / 2, - 1, 0] 2)) =
     [(''clipping'', ''00:00:00.500'', 1, ''high''), (''clipping'', ''00:00:02.000'', 1 / 2, ''high'')]"
  by (simp add: detect_clipping_def flagged_spans_example np_any_def clipping_issue_def Let_def
      seconds_to_timestamp_def py_fmod_def format_02d_def format_f_def fixed_digits_def
      round_half_even_def zfill_def show_nat.simps digit_char_def numeral_2_eq_2)

text \<open>
  Claim C4. For every sample array and positive sample rate, \<^verbatim>\<open>_detect_clipping\<close>
  returns one issue per maximal contiguous run of samples of absolute value at least
  0.99: the spans it groups are exactly the maximal runs, they are disjoint and separated,
  and the issue of the span \<open>[s, e)\<close> starts at \<open>s / sample_rate\<close>, lasts
  \<open>(e - s) / sample_rate\<close> and has severity \<^verbatim>\<open>high\<close>.
\<close>

theorem clipping_spans:
  assumes "0 < sample_rate"
  shows "\<exists>spans issues.
     detect_clipping audio_data sample_rate = Inr issues
     \<and> set spans = {(s, e). is_maximal_run (map (\<lambda>x. 99 / 100 \<le> \<bar>x\<bar>) audio_data) s e}
     \<and> spans_apart spans
     \<and> map (\<lambda>i. (i_type i, i_timestamp i, i_duration i, i_severity i)) issues =
         map (\<lambda>(s, e). (''clipping'', seconds_to_timestamp (real s / real sample_rate),
                real (e - s) / real sample_rate, ''high'')) spans"
proof -
  define spans where "spans = flagged_spans (map (\<lambda>x. 99 / 100 \<le> \<bar>x\<bar>) audio_data)"
  define view where "view = (\<lambda>i :: issue. (i_type i, i_timestamp i, i_duration i, i_severity i))"
  define want where "want = (\<lambda>(s, e). (''clipping'', seconds_to_timestamp (real s / real sample_rate),
                real (e - s) / real sample_rate, ''high''))"
  have v: "view (clipping_issue sample_rate p) = want p" if "p \<in> set spans" for p
  proof -
    obtain s e where p: "p = (s, e)" by (cases p)
    have "s < e" using that unfolding spans_def p by (rule flagged_spans_ordered)
    then have "s \<le> e" by simp
    then show ?thesis by (simp add: p view_def want_def clipping_issue_def Let_def of_nat_diff)
  qed
  have "map view (map (clipping_issue sample_rate) spans) = map (\<lambda>p. view (clipping_issue sample_rate p)) spans"
    by simp
  also have "\<dots> = map want spans"
    by (rule map_cong [OF refl]) (rule v)
  finally have m: "map view (map (clipping_issue sample_rate) spans) = map want spans" .
  have d: "detect_clipping audio_data sample_rate = Inr (map (clipping_issue sample_rate) spans)"
    unfolding spans_def using assms by (rule detect_clipping_grouped)
  have s: "set spans = {(s, e). is_maximal_run (map (\<lambda>x. 99 / 100 \<le> \<bar>x\<bar>) audio_data) s e}"
    unfolding spans_def by (rule flagged_spans_maximal)
  have a: "spans_apart spans"
    unfolding spans_def by (rule flagged_spans_apart)
  show ?thesis
  proof (intro exI conjI)
    show "detect_clipping audio_data sample_rate = Inr (map (clipping_issue sample_rate) spans)"
      by (rule d)
    show "set spans = {(s, e). is_maximal_run (map (\<lambda>x. 99 / 100 \<le> \<bar>x\<bar>) audio_data) s e}"
      by (rule s)
    show "spans_apart spans" by (rule a)
    show "map (\<lambda>i. (i_type i, i_timestamp i, i_duration i, i_severity i))
            (map (clipping_issue sample_rate) spans) =
          map (\<lambda>(s, e). (''clipping'', seconds_to_timestamp (real s / real sample_rate),
                real (e - s) / real sample_rate, ''high'')) spans"
      using m unfolding view_def want_def .
  qed
qed

theorem clipping_spans_witness:
  "(0::nat) < 2 \<and>
   (\<exists>spans issues.
     detect_clipping [0, 1, 1, 1 / 2, - 1, 0] 2 = Inr issues
     \<and> set spans = {(s, e). is_maximal_run (map (\<lambda>x. 99 / 100 \<le> \<bar>x\<bar>) [0, 1, 1, 1 / 2, - 1, 0 :: real]) s e}
     \<and> spans_apart spans
     \<and> map (\<lambda>i. (i_type i, i_timestamp i, i_duration i, i_severity i)) issues =
         map (\<lambda>(s, e). (''clipping'', seconds_to_timestamp (real s / real 2),
                real (e - s) / real 2, ''high'')) spans)"
  using clipping_spans [of 2 "[0, 1, 1, 1 / 2, - 1, 0]"] by simp

text \<open>The detector on seven samples at two samples per second: one run is long enough.\<close>

lemma silence_example:
  "map (\<lambda>i. (i_type i, i_timestamp i, i_duration i, i_severity i))
     (projr (detect_silences [1 / 2, 0, 0, 0, 1 / 2, 0, 1 / 2] 2)) =
     [(''silence'', ''00:00:00.500'', 3 / 2, ''low'')]"
proof -
  have "map (\<lambda>x. audio_db x < - 40) [1 / 2, 0, 0, 0, 1 / 2, 0, 1 / 2] =
          [False, True, True, True, False, True, False]"
    by (simp add: audio_db_below)
  moreover have "flagged_spans [False, True, True, True, False, True, False] = [(1, 4), (5, 6)]"
    by (simp add: flagged_spans_def np_where_def Let_def nth_Cons')
  ultimately show ?thesis
    by (simp add: detect_silences_def np_any_def silence_issue_def Let_def
      seconds_to_timestamp_def py_fmod_def format_02d_def format_f_def fixed_digits_def
      round_half_even_def zfill_def show_nat.simps digit_char_def numeral_2_eq_2)
qed

text \<open>
  Claim C6. For every sample array and positive sample rate, \<^verbatim>\<open>_detect_silences\<close> emits
  one \<^verbatim>\<open>silence\<close> issue per maximal contiguous run of samples below -40 dBFS that lasts
  at least one second, with severity \<^verbatim>\<open>low\<close> under three seconds and \<^verbatim>\<open>medium\<close> from
  three seconds on; ten seconds of zero samples give exactly one issue, which starts at 0,
  lasts 10 seconds and has severity \<^verbatim>\<open>medium\<close>.
\<close>

theorem silence_spans:
  assumes "0 < sample_rate"
  shows "(\<exists>spans issues.
      detect_silences audio_data sample_rate = Inr issues
      \<and> set spans = {(s, e). is_maximal_run (map (\<lambda>x. audio_db x < - 40) audio_data) s e}
      \<and> spans_apart spans
      \<and> map (\<lambda>i. (i_type i, i_timestamp i, i_duration i, i_severity i)) issues =
          map (\<lambda>(s, e). (''silence'', seconds_to_timestamp (real s / real sample_rate),
                 real (e - s) / real sample_rate,
                 if real (e - s) / real sample_rate < 3 then ''low'' else ''medium''))
            (filter (\<lambda>(s, e). 1 \<le> real (e - s) / real sample_rate) spans))
    \<and> (\<exists>i. detect_silences (replicate (10 * sample_rate) 0) sample_rate = Inr [i]
          \<and> (i_type i, i_timestamp i, i_duration i, i_severity i) =
              (''silence'', ''00:00:00.000'', 10, ''medium''))"
proof (rule conjI)
  define spans where "spans = flagged_spans (map (\<lambda>x. audio_db x < - 40) audio_data)"
  define view where "view = (\<lambda>i :: issue. (i_type i, i_timestamp i, i_duration i, i_severity i))"
  define want where "want = (\<lambda>(s, e). (''silence'', seconds_to_timestamp (real s / real sample_rate),
                 real (e - s) / real sample_rate,
                 if real (e - s) / real sample_rate < 3 then ''low'' else ''medium''))"
  define long where "long = (\<lambda>(s :: nat, e :: nat). 1 \<le> real (e - s) / real sample_rate)"
  have le: "s \<le> e" if "(s, e) \<in> set spans" for s e
    using flagged_spans_ordered [of s e "map (\<lambda>x. audio_db x < - 40) audio_data"] that
    unfolding spans_def by simp
  have v: "view (silence_issue sample_rate p) = want p" if "p \<in> set (filter long spans)" for p
  proof -
    obtain s e where p: "p = (s, e)" by (cases p)
    with that have "s \<le> e" using le by simp
    then show ?thesis by (simp add: p view_def want_def silence_issue_def Let_def of_nat_diff)
  qed
  have f: "filter (\<lambda>(s, e). 1 \<le> (real e - real s) / real sample_rate) spans = filter long spans"
  proof (rule filter_cong [OF refl])
    fix p assume mem: "p \<in> set spans"
    obtain s e where p: "p = (s, e)" by (cases p)
    with mem have "s \<le> e" using le by simp
    with p show "(case p of (s, e) \<Rightarrow> 1 \<le> (real e - real s) / real sample_rate) = long p"
      by (simp add: long_def of_nat_diff)
  qed
  have "map view (map (silence_issue sample_rate) (filter long spans)) =
        map (\<lambda>p. view (silence_issue sample_rate p)) (filter long spans)"
    by simp
  also have "\<dots> = map want (filter long spans)"
    by (rule map_cong [OF refl]) (rule v)
  finally have m: "map view (map (silence_issue sample_rate) (filter long spans)) = map want (filter long spans)" .
  have d: "detect_silences audio_data sample_rate = Inr (map (silence_issue sample_rate) (filter long spans))"
    using detect_silences_grouped [OF assms, of audio_data] f unfolding spans_def by simp
  show "\<exists>spans issues.
      detect_silences audio_data sample_rate = Inr issues
      \<and> set spans = {(s, e). is_maximal_run (map (\<lambda>x. audio_db x < - 40) audio_data) s e}
      \<and> spans_apart spans
      \<and> map (\<lambda>i. (i_type i, i_timestamp i, i_duration i, i_severity i)) issues =
          map (\<lambda>(s, e). (''silence'', seconds_to_timestamp (real s / real sample_rate),
                 real (e - s) / real sample_rate,
                 if real (e - s) / real sample_rate < 3 then ''low'' else ''medium''))
            (filter (\<lambda>(s, e). 1 \<le> real (e - s) / real sample_rate) spans)"
  proof (intro exI conjI)
    show "detect_silences audio_data sample_rate = Inr (map (silence_issue sample_rate) (filter long spans))"
      by (rule d)
    show "set spans = {(s, e). is_maximal_run (map (\<lambda>x. audio_db x < - 40) audio_data) s e}"
      unfolding spans_def by (rule flagged_spans_maximal)
    show "spans_apart spans" unfolding spans_def by (rule flagged_spans_apart)
    show "map (\<lambda>i. (i_type i, i_timestamp i, i_duration i, i_severity i))
            (map (silence_issue sample_rate) (filter long spans)) =
          map (\<lambda>(s, e). (''silence'', seconds_to_timestamp (real s / real sample_rate),
                 real (e - s) / real sample_rate,
                 if real (e - s) / real sample_rate < 3 then ''low'' else ''medium''))
            (filter (\<lambda>(s, e). 1 \<le> real (e - s) / real sample_rate) spans)"
      using m unfolding view_def want_def long_def .
  qed
next
  have z: "audio_db 0 < - 40" by (simp add: audio_db_below)
  have "map (\<lambda>x. audio_db x < - 40) (replicate (10 * sample_rate) 0) = replicate (10 * sample_rate) True"
    using z by simp
  moreover have "flagged_spans (replicate (10 * sample_rate) True) = [(0, 10 * sample_rate)]"
    using assms by (intro flagged_spans_all_true) simp
  ultimately have "detect_silences (replicate (10 * sample_rate) 0) sample_rate =
      Inr [silence_issue sample_rate (0, 10 * sample_rate)]"
    using assms by (simp add: detect_silences_grouped)
  moreover have "(\<lambda>i. (i_type i, i_timestamp i, i_duration i, i_severity i))
      (silence_issue sample_rate (0, 10 * sample_rate)) = (''silence'', ''00:00:00.000'', 10, ''medium'')"
    using assms by (simp add: silence_issue_def Let_def zero_timestamp)
  ultimately show "\<exists>i. detect_silences (replicate (10 * sample_rate) 0) sample_rate = Inr [i]
          \<and> (i_type i, i_timestamp i, i_duration i, i_severity i) =
              (''silence'', ''00:00:00.000'', 10, ''medium'')"
    by simp
qed

theorem silence_spans_witness:
  "(0::nat) < 2 \<and>
   (\<exists>i. detect_silences (replicate (10 * 2) 0) 2 = Inr [i]
          \<and> (i_type i, i_timestamp i, i_duration i, i_severity i) =
              (''silence'', ''00:00:00.000'', 10, ''medium''))"
  using silence_spans [of 2 "[]"] by simp

subsection \<open>Sorted issue lists\<close>

lemma parses_seconds:
  "timestamp_parses \<lparr>i_type = a, i_timestamp = seconds_to_timestamp x, i_duration = b,
     i_severity = c, i_description = d, i_suggested_fix = e\<rparr>"
  by (simp add: timestamp_parses_def parsed_timestamp_value)

lemma zero_timestamp_parses: "timestamp_to_seconds ''00:00:00.000'' = Inr 0"
  using parsed_timestamp_value [of 0]
  by (simp add: zero_timestamp py_fmod_def round_half_even_def)

lemma parses_zero:
  "timestamp_parses \<lparr>i_type = a, i_timestamp = ''00:00:00.000'', i_duration = b,
     i_severity = c, i_description = d, i_suggested_fix = e\<rparr>"
  by (simp add: timestamp_parses_def zero_timestamp_parses)

lemma sort_keys_parses:
  "list_all timestamp_parses xs \<Longrightarrow> sort_keys xs = Inr (map timestamp_key xs)"
  by (induction xs) (auto simp: timestamp_parses_def timestamp_key_def split: sum.splits)

lemma insort_key_map:
  "insort_key g (h x) (map h ys) = map h (insort_key (\<lambda>y. g (h y)) x ys)"
  by (induction ys) simp_all

lemma sort_key_map: "sort_key g (map h xs) = map h (sort_key (\<lambda>y. g (h y)) xs)"
  by (induction xs) (simp_all add: insort_key_map)

lemma undecorate: "map snd (sort_key fst (zip (map f xs) xs)) = sort_key f xs"
proof -
  have "zip (map f xs) xs = map (\<lambda>x. (f x, x)) xs"
    by (induction xs) simp_all
  then show ?thesis by (simp add: sort_key_map comp_def)
qed

lemma sorted_by_timestamp_parses:
  assumes "list_all timestamp_parses xs"
  shows "sorted_by_timestamp xs = Inr (sort_key timestamp_key xs)"
  by (simp add: sorted_by_timestamp_def sort_keys_parses [OF assms] undecorate)

lemma sorted_by_timestamp_sorted:
  assumes "list_all timestamp_parses xs"
  shows "\<exists>issues ks. sorted_by_timestamp xs = Inr issues \<and> sort_keys issues = Inr ks \<and> sorted ks"
proof -
  have "list_all timestamp_parses (sort_key timestamp_key xs)"
    using assms by (simp add: list_all_iff)
  then have "sort_keys (sort_key timestamp_key xs) = Inr (map timestamp_key (sort_key timestamp_key xs))"
    by (rule sort_keys_parses)
  moreover have "sorted (map timestamp_key (sort_key timestamp_key xs))"
    by (rule sorted_sort_key)
  ultimately show ?thesis
    using sorted_by_timestamp_parses [OF assms] by simp
qed

lemma loudness_parses: "list_all timestamp_parses (analyze_loudness L audio_data sample_rate)"
  by (simp add: analyze_loudness_def loudness_issue_def parses_zero
      split: sum.split pyfloat.split)

lemma clipping_issue_parses: "timestamp_parses (clipping_issue sample_rate p)"
  by (cases p) (simp add: clipping_issue_def Let_def parses_seconds)

lemma silence_issue_parses: "timestamp_parses (silence_issue sample_rate p)"
  by (cases p) (simp add: silence_issue_def Let_def parses_seconds)

lemma voice_glitch_issue_parses: "timestamp_parses (voice_glitch_issue hop_length sample_rate grp)"
  by (simp add: voice_glitch_issue_def Let_def parses_seconds)

lemma list_all_map_always: "(\<And>x. P (f x)) \<Longrightarrow> list_all P (map f xs)"
  by (induction xs) simp_all

lemma clipping_parses:
  "detect_clipping audio_data sample_rate = Inr issues \<Longrightarrow> list_all timestamp_parses issues"
  by (auto simp: detect_clipping_def Let_def clipping_issue_parses intro!: list_all_map_always
      split: if_splits)

lemma silences_parses:
  "detect_silences audio_data sample_rate = Inr issues \<Longrightarrow> list_all timestamp_parses issues"
  by (auto simp: detect_silences_def Let_def silence_issue_parses intro!: list_all_map_always
      split: if_splits)

lemma glitches_parses: "list_all timestamp_parses (detect_voice_glitches L audio_data sample_rate)"
proof -
  define fl where "fl = nat \<lfloor>(25 / 1000) * real sample_rate\<rfloor>"
  define hl where "hl = nat \<lfloor>(10 / 1000) * real sample_rate\<rfloor>"
  have m: "list_all timestamp_parses (map (voice_glitch_issue h s) gs)" for h s gs
    by (rule list_all_map_always) (rule voice_glitch_issue_parses)
  note d = detect_voice_glitches_def Let_def m
  show ?thesis
  proof (cases "zero_crossing_rate L audio_data fl hl")
    case Inl
    then show ?thesis by (simp add: d fl_def hl_def)
  next
    case z: (Inr zcr)
    show ?thesis
    proof (cases "rms_feature L audio_data fl hl")
      case Inl
      with z show ?thesis by (simp add: d fl_def hl_def)
    next
      case r: (Inr rms)
      show ?thesis
      proof (cases "np_percentile L zcr 95")
        case Inl
        with z r show ?thesis by (simp add: d fl_def hl_def)
      next
        case zt: (Inr zcr_threshold)
        show ?thesis
        proof (cases "np_percentile L rms 20")
          case Inl
          with z r zt show ?thesis by (simp add: d fl_def hl_def)
        next
          case rt: (Inr rms_threshold)
          show ?thesis
          proof (cases "np_where (map (\<lambda>(z, r). zcr_threshold < z \<and> r < rms_threshold) (zip zcr rms))")
            case Nil
            with z r zt rt show ?thesis by (simp add: d fl_def hl_def)
          next
            case Cons
            with z r zt rt show ?thesis by (simp add: d fl_def hl_def)
          qed
        qed
      qed
    qed
  qed
qed

lemma audio_error_parses: "timestamp_parses (audio_analysis_error e)"
  by (simp add: audio_analysis_error_def parses_zero)

lemma analyze_audio_sorted:
  "\<exists>issues ks. fst (analyze_audio L self) = Inr issues \<and> sort_keys issues = Inr ks \<and> sorted ks"
proof (cases "va_video_clip self")
  case None
  then show ?thesis by (simp add: analyze_audio_def)
next
  case (Some clip)
  note c = this
  show ?thesis
  proof (cases "clip_audio clip")
    case None
    with c show ?thesis by (simp add: analyze_audio_def)
  next
    case (Some audio)
    note a = this
    show ?thesis
    proof (cases "to_soundarray audio")
      case (Inl e)
      have "list_all timestamp_parses [audio_analysis_error e]"
        by (simp add: audio_error_parses)
      from sorted_by_timestamp_sorted [OF this] c a Inl show ?thesis
        by (simp add: analyze_audio_def)
    next
      case (Inr audio_array)
      define mono where "mono = (case audio_array of Array2D rows \<Rightarrow> map np_mean rows | Array1D xs \<Rightarrow> xs)"
      define sr where "sr = audio_fps audio"
      define l where "l = analyze_loudness L mono sr"
      have lp: "list_all timestamp_parses l" unfolding l_def by (rule loudness_parses)
      show ?thesis
      proof (cases "detect_clipping mono sr")
        case e: (Inl e)
        have "list_all timestamp_parses (l @ [audio_analysis_error e])"
          using lp by (simp add: audio_error_parses)
        from sorted_by_timestamp_sorted [OF this] c a Inr e show ?thesis
          by (simp add: analyze_audio_def Let_def mono_def sr_def l_def)
      next
        case cl: (Inr clipping)
        then have cp: "list_all timestamp_parses clipping" by (rule clipping_parses)
        show ?thesis
        proof (cases "detect_silences mono sr")
          case e: (Inl e)
          have "list_all timestamp_parses (l @ clipping @ [audio_analysis_error e])"
            using lp cp by (simp add: audio_error_parses)
          from sorted_by_timestamp_sorted [OF this] c a Inr cl e show ?thesis
            by (simp add: analyze_audio_def Let_def mono_def sr_def l_def)
        next
          case si: (Inr silences)
          then have sp: "list_all timestamp_parses silences" by (rule silences_parses)
          have "list_all timestamp_parses (l @ clipping @ silences @ detect_voice_glitches L mono sr)"
            using lp cp sp by (simp add: glitches_parses)
          from sorted_by_timestamp_sorted [OF this] c a Inr cl si show ?thesis
            by (simp add: analyze_audio_def Let_def mono_def sr_def l_def)
        qed
      qed
    qed
  qed
qed

lemma frame_step_parses:
  "list_all timestamp_parses (fl_issues st) \<Longrightarrow> list_all timestamp_parses (fl_issues (frame_step clip st k))"
  by (auto simp: frame_step_def Let_def frame_analysis_error_def black_frame_issue_def
      frozen_frame_issue_def parses_seconds split: sum.splits option.splits)

lemma frame_loop_parses:
  "list_all timestamp_parses (fl_issues st) \<Longrightarrow>
     list_all timestamp_parses (fl_issues (foldl (frame_step clip) st ks))"
  by (induction ks arbitrary: st) (simp_all add: frame_step_parses)

lemma frame_finish_parses:
  "list_all timestamp_parses (fl_issues st) \<Longrightarrow> list_all timestamp_parses (frame_loop_finish st)"
  by (auto simp: frame_loop_finish_def frozen_frame_issue_def parses_seconds split: option.splits)

lemma analyze_video_sorted:
  "\<exists>issues ks. analyze_video self = Inr issues \<and> sort_keys issues = Inr ks \<and> sorted ks"
proof (cases "va_video_clip self")
  case None
  then show ?thesis by (simp add: analyze_video_def)
next
  case (Some clip)
  have "list_all timestamp_parses
     (frame_loop_finish (foldl (frame_step clip) frame_loop_init [0..<sample_count (clip_duration clip)]))"
    by (intro frame_finish_parses frame_loop_parses) (simp add: frame_loop_init_def)
  from sorted_by_timestamp_sorted [OF this] Some show ?thesis
    by (simp add: analyze_video_def)
qed

text \<open>
  Claim C9. The issue list returned by \<^verbatim>\<open>analyze_audio\<close> and the one returned by
  \<^verbatim>\<open>analyze_video\<close> are sorted in ascending order of timestamp, the timestamps compared
  as seconds: each call returns a list (the conversion of its timestamps never raises),
  and the seconds of its timestamps, in list order, are ascending.
\<close>

theorem issues_sorted_by_timestamp:
  "(\<exists>issues ks. fst (analyze_audio L self) = Inr issues \<and> sort_keys issues = Inr ks \<and> sorted ks)
   \<and> (\<exists>issues ks. analyze_video self = Inr issues \<and> sort_keys issues = Inr ks \<and> sorted ks)"
  using analyze_audio_sorted analyze_video_sorted by blast

theorem issues_sorted_by_timestamp_witness:
  "(\<exists>issues ks. fst (analyze_audio failing_libs mute_analyzer) = Inr issues
      \<and> sort_keys issues = Inr ks \<and> sorted ks)
   \<and> (\<exists>issues ks. analyze_video mute_analyzer = Inr issues \<and> sort_keys issues = Inr ks \<and> sorted ks)"
  by (rule issues_sorted_by_timestamp)

subsection \<open>Frozen frames\<close>

lemma frozen_type [simp]: "i_type (frozen_frame_issue s d) = ''frozen_frame''"
  by (simp add: frozen_frame_issue_def)

lemma frame_step_decoded:
  assumes "gray_frame clip k = Inr g" and "fl_prev_frame st = Some p"
  shows "fl_prev_frame (frame_step clip st k) = Some g"
    and "psnr_above_45 g p \<Longrightarrow>
           fl_frozen_start (frame_step clip st k) =
             (case fl_frozen_start st of None \<Rightarrow> Some (real k - 1) | Some s \<Rightarrow> Some s)
           \<and> fl_frozen_duration (frame_step clip st k) = fl_frozen_duration st + 1
           \<and> filter (\<lambda>i. i_type i = ''frozen_frame'') (fl_issues (frame_step clip st k)) =
               filter (\<lambda>i. i_type i = ''frozen_frame'') (fl_issues st)"
    and "\<not> psnr_above_45 g p \<Longrightarrow>
           fl_frozen_start (frame_step clip st k) = None
           \<and> fl_frozen_duration (frame_step clip st k) = 0
           \<and> filter (\<lambda>i. i_type i = ''frozen_frame'') (fl_issues (frame_step clip st k)) =
               filter (\<lambda>i. i_type i = ''frozen_frame'') (fl_issues st) @
               (case fl_frozen_start st of
                  None \<Rightarrow> []
                | Some s \<Rightarrow> if 2 < fl_frozen_duration st
                            then [frozen_frame_issue s (fl_frozen_duration st)] else [])"
  using assms
  by (simp_all add: frame_step_def Let_def black_frame_issue_def split: option.split)

lemma frozen_loop:
  assumes frames: "\<forall>k<n. gray_frame clip k = Inr (g k)"
    and "j < n" and "fl_prev_frame st = Some (g j)" and "frozen_matches st j opn"
  shows "filter (\<lambda>i. i_type i = ''frozen_frame'')
           (frame_loop_finish (foldl (frame_step clip) st [Suc j..<n])) =
         filter (\<lambda>i. i_type i = ''frozen_frame'') (fl_issues st) @
         map frozen_run_issue
           (filter (\<lambda>(s, e). 2 < e - s)
              (run_spans opn j (map (\<lambda>i. psnr_above_45 (g (Suc i)) (g i)) [j..<n - 1])))"
  using assms(2-)
proof (induction "n - Suc j" arbitrary: j st opn)
  case 0
  then have n: "n = Suc j" by simp
  show ?case
  proof (cases opn)
    case None
    with 0(4) show ?thesis
      by (simp add: n frozen_matches_def frame_loop_finish_def)
  next
    case (Some s)
    with 0(4) show ?thesis
      by (auto simp: n frozen_matches_def frame_loop_finish_def frozen_run_issue_def)
  qed
next
  case (Suc m)
  define k where "k = Suc j"
  define st' where "st' = frame_step clip st k"
  define fs where "fs = map (\<lambda>i. psnr_above_45 (g (Suc i)) (g i)) [k..<n - 1]"
  from Suc(2) have kn: "k < n" and m: "m = n - Suc k" by (simp_all add: k_def)
  have gk: "gray_frame clip k = Inr (g k)" using frames kn by simp
  have l1: "[Suc j..<n] = k # [Suc k..<n]" using kn by (simp add: k_def upt_conv_Cons)
  have l2: "map (\<lambda>i. psnr_above_45 (g (Suc i)) (g i)) [j..<n - 1] = psnr_above_45 (g k) (g j) # fs"
    using kn by (simp add: k_def fs_def upt_conv_Cons)
  note step = frame_step_decoded [OF gk Suc(4)]
  have prev: "fl_prev_frame st' = Some (g k)" unfolding st'_def by (rule step(1))
  define F where "F = (\<lambda>i :: issue. i_type i = ''frozen_frame'')"
  define long where "long = (\<lambda>(s :: nat, e :: nat). 2 < e - s)"
  have goal: "filter F (frame_loop_finish (foldl (frame_step clip) st [Suc j..<n])) =
      filter F (fl_issues st) @ map frozen_run_issue (filter long (run_spans opn j (b # fs)))"
    if ih: "filter F (frame_loop_finish (foldl (frame_step clip) st' [Suc k..<n])) =
              filter F (fl_issues st') @ map frozen_run_issue (filter long (run_spans opn' k fs))"
      and eq: "filter F (fl_issues st') @ map frozen_run_issue (filter long (run_spans opn' k fs)) =
               filter F (fl_issues st) @ map frozen_run_issue (filter long (run_spans opn j (b # fs)))"
    for opn' b
  proof -
    have "foldl (frame_step clip) st [Suc j..<n] = foldl (frame_step clip) st' [Suc k..<n]"
      by (simp only: l1 foldl_Cons st'_def)
    with ih eq show ?thesis by simp
  qed
  have "filter F (frame_loop_finish (foldl (frame_step clip) st [Suc j..<n])) =
      filter F (fl_issues st) @ map frozen_run_issue
        (filter long (run_spans opn j (psnr_above_45 (g k) (g j) # fs)))"
  proof (cases "psnr_above_45 (g k) (g j)")
    case True
    define opn' where "opn' = (case opn of None \<Rightarrow> Some j | Some s \<Rightarrow> Some s)"
    from step(2) [OF True]
    have s: "fl_frozen_start st' = (case fl_frozen_start st of None \<Rightarrow> Some (real k - 1) | Some s \<Rightarrow> Some s)"
      and d: "fl_frozen_duration st' = fl_frozen_duration st + 1"
      and f: "filter F (fl_issues st') = filter F (fl_issues st)"
      by (simp_all add: st'_def F_def)
    have match: "frozen_matches st' k opn'"
    proof (cases opn)
      case None
      with Suc(5) s d show ?thesis by (simp add: frozen_matches_def opn'_def k_def)
    next
      case (Some a)
      with Suc(5) s d show ?thesis
        by (auto simp: frozen_matches_def opn'_def k_def Suc_diff_le)
    qed
    have r: "run_spans opn j (True # fs) = run_spans opn' k fs"
      by (cases opn) (simp_all add: opn'_def k_def)
    show ?thesis
    proof (rule goal [where opn' = opn'])
      show "filter F (frame_loop_finish (foldl (frame_step clip) st' [Suc k..<n])) =
              filter F (fl_issues st') @ map frozen_run_issue (filter long (run_spans opn' k fs))"
        using Suc(1) [OF m kn prev match] unfolding F_def long_def fs_def .
      show "filter F (fl_issues st') @ map frozen_run_issue (filter long (run_spans opn' k fs)) =
            filter F (fl_issues st) @ map frozen_run_issue
              (filter long (run_spans opn j (psnr_above_45 (g k) (g j) # fs)))"
        using True by (simp add: f r)
    qed
  next
    case False
    from step(3) [OF False]
    have s: "fl_frozen_start st' = None"
      and d: "fl_frozen_duration st' = 0"
      and f: "filter F (fl_issues st') =
              filter F (fl_issues st) @
               (case fl_frozen_start st of
                  None \<Rightarrow> []
                | Some s \<Rightarrow> if 2 < fl_frozen_duration st
                            then [frozen_frame_issue s (fl_frozen_duration st)] else [])"
      by (simp_all add: st'_def F_def)
    have match: "frozen_matches st' k None" using s d by (simp add: frozen_matches_def)
    show ?thesis
    proof (rule goal [where opn' = None])
      show "filter F (frame_loop_finish (foldl (frame_step clip) st' [Suc k..<n])) =
              filter F (fl_issues st') @ map frozen_run_issue (filter long (run_spans None k fs))"
        using Suc(1) [OF m kn prev match] unfolding F_def long_def fs_def .
      show "filter F (fl_issues st') @ map frozen_run_issue (filter long (run_spans None k fs)) =
            filter F (fl_issues st) @ map frozen_run_issue
              (filter long (run_spans opn j (psnr_above_45 (g k) (g j) # fs)))"
      proof (cases opn)
        case None
        with Suc(5) have "fl_frozen_start st = None" by (simp add: frozen_matches_def)
        with None False show ?thesis by (simp add: f k_def)
      next
        case (Some a)
        with Suc(5) have "a < j" "fl_frozen_start st = Some (real a)" "fl_frozen_duration st = real (j - a)"
          by (simp_all add: frozen_matches_def)
        with Some False show ?thesis
          by (auto simp: f k_def frozen_run_issue_def long_def)
      qed
    qed
  qed
  then show ?case unfolding F_def long_def l2 .
qed

lemma frozen_before_sort:
  assumes frames: "\<forall>k<n. gray_frame clip k = Inr (g k)"
  shows "filter (\<lambda>i. i_type i = ''frozen_frame'')
           (frame_loop_finish (foldl (frame_step clip) frame_loop_init [0..<n])) =
         map frozen_run_issue
           (filter (\<lambda>(s, e). 2 < e - s)
              (run_spans None 0 (map (\<lambda>i. psnr_above_45 (g (Suc i)) (g i)) [0..<n - 1])))"
proof (cases n)
  case 0
  then show ?thesis by (simp add: frame_loop_finish_def frame_loop_init_def)
next
  case (Suc m)
  define st0 where "st0 = frame_step clip frame_loop_init 0"
  have g0: "gray_frame clip 0 = Inr (g 0)" using frames Suc by simp
  have p: "fl_prev_frame st0 = Some (g 0)"
    and f: "filter (\<lambda>i. i_type i = ''frozen_frame'') (fl_issues st0) = []"
    and m: "frozen_matches st0 0 None"
    by (simp_all add: st0_def frame_step_def frame_loop_init_def g0 Let_def black_frame_issue_def
        frozen_matches_def)
  have n: "0 < n" using Suc by simp
  then have "[0..<n] = 0 # [Suc 0..<n]" by (rule upt_conv_Cons)
  then have "foldl (frame_step clip) frame_loop_init [0..<n] = foldl (frame_step clip) st0 [Suc 0..<n]"
    by (simp only: foldl_Cons st0_def)
  then show ?thesis
    using frozen_loop [OF frames n p m] f by simp
qed

lemma round_half_even_of_int: "round_half_even (of_int z) = z"
  by (simp add: round_half_even_def)

lemma timestamp_whole_seconds:
  "timestamp_to_seconds (seconds_to_timestamp (real s)) = Inr (real s)"
proof -
  define q where "q = \<lfloor>real s / 60\<rfloor>"
  have "py_fmod (real s) 60 * 1000 = of_int (1000 * (int s - 60 * q))"
    by (simp add: py_fmod_def q_def)
  then have "of_int (round_half_even (py_fmod (real s) 60 * 1000)) = py_fmod (real s) 60 * 1000"
    by (simp only: round_half_even_of_int)
  then have "of_int (round_half_even (py_fmod (real s) 60 * 1000)) / 1000 = py_fmod (real s) 60"
    by simp
  then show ?thesis
    using seconds_decomposition [of "real s"] by (simp add: parsed_timestamp_value)
qed

lemma frozen_run_key: "timestamp_key (frozen_run_issue (s, e)) = real s"
  by (simp add: timestamp_key_def frozen_run_issue_def frozen_frame_issue_def timestamp_whole_seconds)

lemma apart_starts_sorted:
  "spans_apart spans \<Longrightarrow> (\<And>s e. (s, e) \<in> set spans \<Longrightarrow> s < e) \<Longrightarrow> sorted (map fst spans)"
proof (induction spans)
  case Nil
  then show ?case by simp
next
  case (Cons p spans)
  obtain s e where p: "p = (s, e)" by (cases p)
  have "s \<le> fst q" if "q \<in> set spans" for q
  proof -
    obtain a b where q: "q = (a, b)" by (cases q)
    from Cons.prems(1) that have "e < a" by (auto simp: spans_apart_def p q)
    moreover have "s < e" using Cons.prems(2) [of s e] by (simp add: p)
    ultimately show ?thesis by (simp add: q)
  qed
  moreover have "sorted (map fst spans)"
    using Cons by (simp add: spans_apart_def)
  ultimately show ?case by (simp add: p)
qed

lemma frozen_issues_sorted:
  assumes "spans_apart spans" and "\<And>s e. (s, e) \<in> set spans \<Longrightarrow> s < e"
  shows "sorted (map timestamp_key (map frozen_run_issue (filter P spans)))"
proof -
  have k: "timestamp_key (frozen_run_issue p) = real (fst p)" for p
    by (cases p) (simp add: frozen_run_key)
  have "sorted (map fst (filter P spans))"
    using apart_starts_sorted [OF assms] by (simp add: sorted_filter)
  then have "sorted (map real (map fst (filter P spans)))"
    by (simp add: sorted_map sorted_wrt_map)
  moreover have "map timestamp_key (map frozen_run_issue (filter P spans)) =
                 map real (map fst (filter P spans))"
    by (simp add: k)
  ultimately show ?thesis by (simp only:)
qed

text \<open>The similarity threshold without the logarithm: a mean squared error below about 2.056.\<close>

lemma psnr_threshold:
  assumes "0 < mse"
  shows "45 < 20 * log 10 (255 / sqrt mse) \<longleftrightarrow> 10 ^ 9 * mse ^ 2 < 255 ^ 4"
proof -
  define x where "x = 255 / sqrt mse"
  have x: "0 < x" using assms by (simp add: x_def)
  have "45 < 20 * log 10 x \<longleftrightarrow> 9 / 4 < log 10 x" by auto
  also have "\<dots> \<longleftrightarrow> 10 powr (9 / 4) < x" using x by (intro less_log_iff) simp_all
  also have "\<dots> \<longleftrightarrow> (10 powr (9 / 4)) ^ 4 < x ^ 4"
  proof -
    have "x ^ 4 \<le> (10 powr (9 / 4)) ^ 4 \<longleftrightarrow> x \<le> 10 powr (9 / 4)"
      using x by (intro power_mono_iff) simp_all
    then show ?thesis by linarith
  qed
  also have "(10 powr (9 / 4)) ^ 4 = (10 :: real) ^ 9"
  proof -
    have "(10 powr (9 / 4)) ^ 4 = (10 :: real) powr (of_nat 4 * (9 / 4))"
      by (rule powr_power) simp
    also have "of_nat 4 * (9 / 4) = (9 :: real)" by simp
    also have "(10 :: real) powr 9 = 10 ^ 9" by simp
    finally show ?thesis .
  qed
  also have "x ^ 4 = 255 ^ 4 / mse ^ 2"
  proof -
    have "(sqrt mse) ^ 4 = ((sqrt mse) ^ 2) ^ 2" by simp
    also have "\<dots> = mse ^ 2" using assms by simp
    finally show ?thesis by (simp add: x_def power_divide)
  qed
  also have "(10 ^ 9 < 255 ^ 4 / mse ^ 2) \<longleftrightarrow> (10 ^ 9 * mse ^ 2 < 255 ^ 4)"
    using assms by (simp add: pos_less_divide_eq)
  finally show ?thesis by (simp add: x_def)
qed

lemma mute_clip_similarity:
  "\<not> psnr_above_45 [50] [10]" "psnr_above_45 [50] [50]" "\<not> psnr_above_45 [90] [50]"
proof -
  have m: "frame_mse [50] [10] = 64" "frame_mse [50] [50] = 0" "frame_mse [90] [50] = 64"
    by (simp_all add: frame_mse_def np_mean_def)
  have "\<not> 45 < 20 * log 10 (255 / sqrt 64)"
    by (subst psnr_threshold) simp_all
  then show "\<not> psnr_above_45 [50] [10]" "psnr_above_45 [50] [50]" "\<not> psnr_above_45 [90] [50]"
    by (simp_all add: psnr_above_45_def m)
qed

text \<open>
  The arithmetic on unsigned bytes shows in the measure: where every pixel differs by 16,
  the squared differences wrap to 0 and the frames count as identical.
\<close>

lemma wrapped_difference_similar: "frame_mse [16] [0] = 0 \<and> psnr_above_45 [16] [0]"
  by (simp add: psnr_above_45_def frame_mse_def np_mean_def)

lemma sample_count_mute: "sample_count (clip_duration mute_clip) = 6"
  by (simp add: sample_count_def mute_clip_def)

text \<open>
  The clip of six one-pixel frames: the samples at seconds 1 to 4 are alike, which is one
  run of three seconds, closed by the sample at second 5 and reported once.
\<close>

lemma analyze_video_example:
  "analyze_video mute_analyzer = Inr [frozen_frame_issue 1 3]"
proof -
  have "frame_loop_finish (foldl (frame_step mute_clip) frame_loop_init [0..<6]) = [frozen_frame_issue 1 3]"
    by (simp add: frame_step_def frame_loop_init_def frame_loop_finish_def mute_clip_similarity
        mute_clip_def mean_brightness_def np_mean_def Let_def upt_conv_Cons)
  moreover have "sorted_by_timestamp [frozen_frame_issue 1 3] = Inr [frozen_frame_issue 1 3]"
    using timestamp_whole_seconds [of 1]
    by (simp add: sorted_by_timestamp_def frozen_frame_issue_def)
  ultimately show ?thesis
    by (simp add: analyze_video_def mute_analyzer_def sample_count_mute)
qed

text \<open>
  The grouping of the frozen-frame detector, with respect to the measure the code computes
  (\<open>psnr_above_45\<close>, on wrapped bytes): when every sampled frame decodes,
  \<^verbatim>\<open>analyze_video\<close> reports one \<^verbatim>\<open>frozen_frame\<close> issue for each maximal run of
  consecutive samples that measure passes and that spans more than two seconds, the run
  still open at the last sample included, and no other \<^verbatim>\<open>frozen_frame\<close> issue: the run
  over the samples \<open>s, \<dots>, e\<close> yields the issue that starts at second \<open>s\<close>, lasts
  \<open>e - s\<close> seconds and has severity \<^verbatim>\<open>high\<close> above five seconds, \<^verbatim>\<open>medium\<close> otherwise.
\<close>

lemma frozen_frame_grouping:
  assumes "va_video_clip self = Some clip"
    and "\<forall>k < sample_count (clip_duration clip). gray_frame clip k = Inr (g k)"
  shows "\<exists>issues runs.
     analyze_video self = Inr issues
     \<and> set runs = {(s, e). is_maximal_run
           (map (\<lambda>j. psnr_above_45 (g (Suc j)) (g j)) [0..<sample_count (clip_duration clip) - 1]) s e}
     \<and> spans_apart runs
     \<and> map (\<lambda>i. (i_type i, i_timestamp i, i_duration i, i_severity i))
           (filter (\<lambda>i. i_type i = ''frozen_frame'') issues) =
         map (\<lambda>(s, e). (''frozen_frame'', seconds_to_timestamp (real s), real (e - s),
                if 5 < e - s then ''high'' else ''medium''))
           (filter (\<lambda>(s, e). 2 < e - s) runs)"
proof -
  define n where "n = sample_count (clip_duration clip)"
  define flags where "flags = map (\<lambda>j. psnr_above_45 (g (Suc j)) (g j)) [0..<n - 1]"
  define runs where "runs = run_spans None 0 flags"
  define raw where "raw = frame_loop_finish (foldl (frame_step clip) frame_loop_init [0..<n])"
  define F where "F = (\<lambda>i :: issue. i_type i = ''frozen_frame'')"
  define long where "long = (\<lambda>(s :: nat, e :: nat). 2 < e - s)"
  define view where "view = (\<lambda>i :: issue. (i_type i, i_timestamp i, i_duration i, i_severity i))"
  define want where "want = (\<lambda>(s :: nat, e :: nat). (''frozen_frame'', seconds_to_timestamp (real s),
      real (e - s), if 5 < e - s then ''high'' else ''medium''))"
  have parses: "list_all timestamp_parses raw"
    unfolding raw_def by (intro frame_finish_parses frame_loop_parses) (simp add: frame_loop_init_def)
  have out: "analyze_video self = Inr (sort_key timestamp_key raw)"
    using assms(1) sorted_by_timestamp_parses [OF parses]
    by (simp add: analyze_video_def raw_def n_def)
  have apart: "spans_apart runs"
    unfolding runs_def spans_apart_def by (rule run_spans_sorted)
  have ordered: "s < e" if "(s, e) \<in> set runs" for s e
    using run_spans_bounds [of s e None 0 flags] that by (simp add: runs_def)
  have "filter F raw = map frozen_run_issue (filter long runs)"
    using frozen_before_sort [of n clip g] assms(2)
    unfolding raw_def F_def long_def runs_def flags_def n_def by simp
  moreover have "filter F (sort_key timestamp_key raw) = sort_key timestamp_key (filter F raw)"
    by (rule filter_sort)
  moreover have "sort_key timestamp_key (map frozen_run_issue (filter long runs)) =
                 map frozen_run_issue (filter long runs)"
    by (rule sort_key_id_if_sorted) (rule frozen_issues_sorted [OF apart ordered])
  ultimately have fr: "filter F (sort_key timestamp_key raw) = map frozen_run_issue (filter long runs)"
    by simp
  have v: "view (frozen_run_issue p) = want p" for p
    by (cases p) (simp add: view_def want_def frozen_run_issue_def frozen_frame_issue_def)
  have m: "map view (filter F (sort_key timestamp_key raw)) = map want (filter long runs)"
    by (simp add: fr v)
  show ?thesis
  proof (intro exI conjI)
    show "analyze_video self = Inr (sort_key timestamp_key raw)" by (rule out)
    show "set runs = {(s, e). is_maximal_run
           (map (\<lambda>j. psnr_above_45 (g (Suc j)) (g j)) [0..<sample_count (clip_duration clip) - 1]) s e}"
      unfolding runs_def flags_def n_def by (rule run_spans_maximal)
    show "spans_apart runs" by (rule apart)
    show "map (\<lambda>i. (i_type i, i_timestamp i, i_duration i, i_severity i))
           (filter (\<lambda>i. i_type i = ''frozen_frame'') (sort_key timestamp_key raw)) =
         map (\<lambda>(s, e). (''frozen_frame'', seconds_to_timestamp (real s), real (e - s),
                if 5 < e - s then ''high'' else ''medium''))
           (filter (\<lambda>(s, e). 2 < e - s) runs)"
      using m unfolding view_def want_def F_def long_def .
  qed
qed

lemma frozen_frame_grouping_example:
  "\<exists>issues runs.
     analyze_video mute_analyzer = Inr issues
     \<and> set runs = {(s, e). is_maximal_run
           (map (\<lambda>j. psnr_above_45 (if Suc j < 5 then [50] else [90]) (if j = 0 then [10] else if j < 5 then [50] else [90]))
              [0..<sample_count (clip_duration mute_clip) - 1]) s e}
     \<and> spans_apart runs
     \<and> map (\<lambda>i. (i_type i, i_timestamp i, i_duration i, i_severity i))
           (filter (\<lambda>i. i_type i = ''frozen_frame'') issues) =
         map (\<lambda>(s, e). (''frozen_frame'', seconds_to_timestamp (real s), real (e - s),
                if 5 < e - s then ''high'' else ''medium''))
           (filter (\<lambda>(s, e). 2 < e - s) runs)"
proof -
  have a: "va_video_clip mute_analyzer = Some mute_clip" by (simp add: mute_analyzer_def)
  have b: "\<forall>k < sample_count (clip_duration mute_clip).
             gray_frame mute_clip k = Inr ((\<lambda>k. if k = 0 then [10] else if k < 5 then [50] else [90]) k)"
    by (simp add: mute_clip_def)
  show ?thesis using frozen_frame_grouping [OF a b] by simp
qed

text \<open>
  The alternating clip: the code's measure passes every pair of consecutive samples, the
  peak signal-to-noise ratio of each pair is about 24 dB.
\<close>

lemma wrap_clip_measure: "psnr_above_45 [116] [100]" "psnr_above_45 [100] [116]"
  by (simp_all add: psnr_above_45_def frame_mse_def np_mean_def)

lemma wrap_clip_exact: "\<not> exact_psnr_above_45 [116] [100]" "\<not> exact_psnr_above_45 [100] [116]"
proof -
  have m: "exact_mse [116] [100] = 256" "exact_mse [100] [116] = 256"
    by (simp_all add: exact_mse_def np_mean_def)
  have "\<not> 45 < 20 * log 10 (255 / sqrt 256)"
    by (subst psnr_threshold) simp_all
  then show "\<not> exact_psnr_above_45 [116] [100]" "\<not> exact_psnr_above_45 [100] [116]"
    by (simp_all add: exact_psnr_above_45_def m)
qed

lemma wrap_clip_frames:
  "map (gray_frame wrap_clip) [0, 1, 2, 3] = [Inr [100], Inr [116], Inr [100], Inr [116]]"
  by (simp add: wrap_clip_def)

lemma wrap_clip_loop:
  "frame_loop_finish (foldl (frame_step wrap_clip) frame_loop_init [0..<4]) = [frozen_frame_issue 0 3]"
  by (simp add: frame_step_def frame_loop_init_def frame_loop_finish_def wrap_clip_measure
      wrap_clip_def mean_brightness_def np_mean_def Let_def upt_conv_Cons)

text \<open>
  Claim C5 holds of the detector's grouping but not of its measure. The source computes
  the mean squared error on unsigned bytes (\<^verbatim>\<open>np.mean((gray_frame - prev_frame) ** 2)\<close>,
  under the comment ``Calculate PSNR between consecutive frames''), so differences and
  squares wrap modulo 256. On the clip whose samples alternate between gray 100 and gray
  116 no two consecutive samples have a peak signal-to-noise ratio above 45 dB, yet
  \<^verbatim>\<open>analyze_video\<close> returns a \<^verbatim>\<open>frozen_frame\<close> issue that starts at second 0 and lasts
  three seconds.
\<close>

theorem frozen_frame_wrapped_measure:
  "map (gray_frame wrap_clip) [0, 1, 2, 3] = [Inr [100], Inr [116], Inr [100], Inr [116]]
   \<and> sample_count (clip_duration wrap_clip) = 4
   \<and> \<not> exact_psnr_above_45 [116] [100]
   \<and> \<not> exact_psnr_above_45 [100] [116]
   \<and> analyze_video wrap_analyzer = Inr [frozen_frame_issue 0 3]
   \<and> i_type (frozen_frame_issue 0 3) = ''frozen_frame''"
proof -
  have n: "sample_count (clip_duration wrap_clip) = 4"
    by (simp add: sample_count_def wrap_clip_def)
  have "sorted_by_timestamp [frozen_frame_issue 0 3] = Inr [frozen_frame_issue 0 3]"
    using timestamp_whole_seconds [of 0]
    by (simp add: sorted_by_timestamp_def frozen_frame_issue_def)
  then have "analyze_video wrap_analyzer = Inr [frozen_frame_issue 0 3]"
    by (simp add: analyze_video_def wrap_analyzer_def n wrap_clip_loop)
  then show ?thesis
    using n wrap_clip_exact wrap_clip_frames by simp
qed

end
